theory Spec2Isabelle
  imports Complex_Main
begin

section \<open>The worker process manager of the image worker\<close>

text \<open>
  A shallow embedding of \<^verbatim>\<open>horde_worker_regen/process_management/process_manager.py\<close>.
  Every method of \<^verbatim>\<open>HordeWorkerProcessManager\<close> becomes a function that takes the
  manager (a record of its attributes) and returns the manager it leaves behind,
  paired with \<open>Inr ()\<close> when the method returns and \<open>Inl e\<close> when it raises \<open>e\<close>:
  a Python method that raises half way keeps the mutations it made before, so the
  state is returned in both cases.

  What the manager does to the outside world (messages sent down a child's pipe,
  HTTP requests, sleeps, log lines of level warning and above) is appended, in order,
  to the field \<open>effects\<close>. Debug and info log lines are left out. What the outside
  world answers (an HTTP status, an API response, a clock reading) is a parameter of
  the function that asks for it. Clock readings are Python floats; they are modelled
  as real numbers.

  The manager runs on one event loop. A method is modelled as running from its first
  statement to its last without another method in between, and the three
  \<^verbatim>\<open>asyncio\<close> locks, which only matter between tasks, are left out.
\<close>

subsection \<open>Enumerations and messages\<close>

datatype error =
    ValueError | NotImplementedError | IndexError | KeyError | OSError | ValidationError

text \<open>
  Modelled from the spec: the kinds of child process (\<^verbatim>\<open>HordeProcessKind\<close> is declared
  in \<^verbatim>\<open>inference_process.py\<close>, which is not among the source files).
\<close>

datatype HordeProcessKind = INFERENCE | SAFETY | DOWNLOAD

text \<open>
  Modelled from the spec: the enumeration \<^verbatim>\<open>HordeProcessState\<close> and its method
  \<^verbatim>\<open>can_accept_job\<close> live in \<^verbatim>\<open>messages.py\<close>, which is not among the source files.
  The states are those of the process state machine of the specification; a process
  can accept a job only in \<open>WAITING_FOR_JOB\<close> or \<open>PRELOADED\<close>.
\<close>

datatype HordeProcessState =
    PROCESS_STARTING | WAITING_FOR_JOB | PRELOADING | PRELOADED
  | INFERENCE_STARTING | INFERENCE_RUNNING | INFERENCE_COMPLETE
  | EVALUATING_SAFETY | UNLOADING | PROCESS_ENDING | PROCESS_ENDED

definition state_can_accept_job :: "HordeProcessState \<Rightarrow> bool" where
  "state_can_accept_job st = (st = WAITING_FOR_JOB \<or> st = PRELOADED)"

text \<open>
  Modelled from the spec: \<^verbatim>\<open>ModelLoadState\<close> and its method \<^verbatim>\<open>is_loaded\<close> (also in
  \<^verbatim>\<open>messages.py\<close>): a model is loaded when it is resident in RAM or in VRAM.
\<close>

datatype ModelLoadState = ON_DISK | LOADING | LOADED_IN_RAM | LOADED_IN_VRAM

definition is_loaded :: "ModelLoadState \<Rightarrow> bool" where
  "is_loaded st = (st = LOADED_IN_RAM \<or> st = LOADED_IN_VRAM)"

text \<open>
  The states of a generation, an enumeration of the SDK: \<^verbatim>\<open>ok\<close>, \<^verbatim>\<open>censored\<close>,
  \<^verbatim>\<open>csam\<close> and \<^verbatim>\<open>faulted\<close>.
\<close>

datatype GENERATION_STATE = GS_ok | GS_censored | GS_csam | GS_faulted

text \<open>
  The job descriptor \<^verbatim>\<open>ImageGenerateJobPopResponse\<close> comes from the SDK; the fields
  below are the ones the manager reads. Each is optional where the manager tests it
  against \<^verbatim>\<open>None\<close>. The SDK's field \<^verbatim>\<open>id_\<close> is \<open>job_id\<close> here (a name cannot
  end with an underscore).
\<close>

record job_payload =
  prompt :: "string option"
  seed :: "string option"
  loras :: "string list option"
  tiling :: "bool option"
  use_nsfw_censor :: bool

record ImageGenerateJobPopResponse =
  job_id :: "string option"
  model :: "string option"
  payload :: job_payload
  r2_upload :: "string option"

record CompletedJobInfo =
  job_info :: ImageGenerateJobPopResponse
  job_result_images_base64 :: "string list option"
  state :: GENERATION_STATE
  censored :: "bool option"

definition is_job_checked_for_safety :: "CompletedJobInfo \<Rightarrow> bool" where
  "is_job_checked_for_safety r = (censored r \<noteq> None)"

record safety_evaluation =
  is_nsfw :: bool
  is_csam :: bool
  replacement_image_base64 :: "string option"

text \<open>
  Modelled from the spec: the report messages a child sends (section 6.3), one
  constructor per message class of \<^verbatim>\<open>messages.py\<close>. The first argument is always the
  \<^verbatim>\<open>process_id\<close> of the sender.
\<close>

datatype HordeProcessMessage =
    HordeProcessStateChangeMessage int HordeProcessState
  | HordeModelStateChangeMessage int string ModelLoadState
  | HordeProcessMemoryMessage int int int int
  | HordeInferenceResultMessage int ImageGenerateJobPopResponse "string list option" GENERATION_STATE
  | HordeSafetyResultMessage int string "safety_evaluation list"

fun message_process_id :: "HordeProcessMessage \<Rightarrow> int" where
  "message_process_id (HordeProcessStateChangeMessage pid _) = pid"
| "message_process_id (HordeModelStateChangeMessage pid _ _) = pid"
| "message_process_id (HordeProcessMemoryMessage pid _ _ _) = pid"
| "message_process_id (HordeInferenceResultMessage pid _ _ _) = pid"
| "message_process_id (HordeSafetyResultMessage pid _ _) = pid"

text \<open>
  Modelled from the spec: the control messages the manager sends (section 6.2), named
  by their \<^verbatim>\<open>HordeControlFlag\<close>.
\<close>

datatype HordeControlMessage =
    END_PROCESS
  | PRELOAD_MODEL string bool bool
  | START_INFERENCE string ImageGenerateJobPopResponse
  | UNLOAD_MODELS_FROM_VRAM string
  | UNLOAD_MODELS_FROM_RAM string
  | EVALUATE_SAFETY string "string list" string bool bool string

record ImageGenerateJobPopRequest =
  req_apikey :: string
  req_name :: string
  req_bridge_version :: int
  req_models :: "string list"
  req_nsfw :: bool
  req_threads :: int
  req_max_pixels :: int
  req_require_upfront_kudos :: bool
  req_allow_img2img :: bool
  req_allow_painting :: bool
  req_allow_unsafe_ipaddr :: bool
  req_allow_post_processing :: bool
  req_allow_controlnet :: bool
  req_allow_lora :: bool

record JobSubmitRequest =
  sub_apikey :: string
  sub_id :: string
  sub_seed :: int
  sub_generation :: string
  sub_state :: GENERATION_STATE
  sub_censored :: bool

datatype loglevel = WARNING | ERROR | CRITICAL

datatype effect =
    Send int HordeControlMessage
  | Spawn int HordeProcessKind
  | Sleep real
  | Log loglevel string
  | HttpPut string string
  | JobPop ImageGenerateJobPopRequest
  | JobSubmit JobSubmitRequest
  | FindUser string
  | WriteFile string

subsection \<open>The process map and the model map\<close>

record HordeProcessInfo =
  process_id :: int
  process_type :: HordeProcessKind
  last_process_state :: HordeProcessState
  loaded_horde_model_name :: "string option"
  ram_usage_bytes :: int
  vram_usage_bytes :: int
  total_vram_bytes :: int

definition can_accept_job :: "HordeProcessInfo \<Rightarrow> bool" where
  "can_accept_job p = state_can_accept_job (last_process_state p)"

definition is_process_busy :: "HordeProcessInfo \<Rightarrow> bool" where
  "is_process_busy p = (\<not> state_can_accept_job (last_process_state p))"

text \<open>
  \<^verbatim>\<open>ProcessMap\<close> is a Python dict from process ids to \<^verbatim>\<open>HordeProcessInfo\<close>; its methods
  iterate over \<^verbatim>\<open>values()\<close> in insertion order and return the first hit, so it is an
  association list in insertion order.
\<close>

type_synonym ProcessMap = "(int \<times> HordeProcessInfo) list"

definition pm_values :: "ProcessMap \<Rightarrow> HordeProcessInfo list" where
  "pm_values pm = map snd pm"

definition pm_contains :: "ProcessMap \<Rightarrow> int \<Rightarrow> bool" where
  "pm_contains pm pid = (map_of pm pid \<noteq> None)"

definition pm_modify :: "int \<Rightarrow> (HordeProcessInfo \<Rightarrow> HordeProcessInfo) \<Rightarrow> ProcessMap \<Rightarrow> ProcessMap" where
  "pm_modify pid f pm = map (\<lambda>(k, p). if k = pid then (k, f p) else (k, p)) pm"

text \<open>\<^verbatim>\<open>self[pid] = info\<close>: a known key keeps its place, a new key goes last.\<close>

definition pm_set :: "int \<Rightarrow> HordeProcessInfo \<Rightarrow> ProcessMap \<Rightarrow> ProcessMap" where
  "pm_set pid info pm =
     (if pm_contains pm pid then pm_modify pid (\<lambda>_. info) pm else pm @ [(pid, info)])"

definition set_opt :: "'a option \<Rightarrow> ('a \<Rightarrow> 'r \<Rightarrow> 'r) \<Rightarrow> 'r \<Rightarrow> 'r" where
  "set_opt v upd r = (case v of None \<Rightarrow> r | Some x \<Rightarrow> upd x r)"

text \<open>
  \<^verbatim>\<open>ProcessMap.update_entry\<close>: every keyword argument that is not \<^verbatim>\<open>None\<close> overwrites
  its field of \<^verbatim>\<open>self[process_id]\<close>; the first such access raises \<^verbatim>\<open>KeyError\<close> for an
  unknown process id. An argument that is \<^verbatim>\<open>None\<close> writes nothing: the method cannot
  store \<^verbatim>\<open>None\<close> in a field.
\<close>

definition ProcessMap_update_entry ::
  "int \<Rightarrow> HordeProcessState option \<Rightarrow> string option \<Rightarrow> int option \<Rightarrow> int option \<Rightarrow> int option
   \<Rightarrow> ProcessMap \<Rightarrow> error + ProcessMap" where
  "ProcessMap_update_entry pid lps name ram vram tvram pm =
     (if lps = None \<and> name = None \<and> ram = None \<and> vram = None \<and> tvram = None then Inr pm
      else if \<not> pm_contains pm pid then Inl KeyError
      else Inr (pm_modify pid
             (\<lambda>p. set_opt tvram (\<lambda>x q. q\<lparr>total_vram_bytes := x\<rparr>)
                  (set_opt vram (\<lambda>x q. q\<lparr>vram_usage_bytes := x\<rparr>)
                  (set_opt ram (\<lambda>x q. q\<lparr>ram_usage_bytes := x\<rparr>)
                  (set_opt name (\<lambda>x q. q\<lparr>loaded_horde_model_name := Some x\<rparr>)
                  (set_opt lps (\<lambda>x q. q\<lparr>last_process_state := x\<rparr>) p))))) pm))"

definition num_inference_processes :: "ProcessMap \<Rightarrow> int" where
  "num_inference_processes pm =
     int (length (filter (\<lambda>p. process_type p = INFERENCE) (pm_values pm)))"

definition num_available_inference_processes :: "ProcessMap \<Rightarrow> int" where
  "num_available_inference_processes pm =
     int (length (filter (\<lambda>p. process_type p = INFERENCE \<and> \<not> is_process_busy p) (pm_values pm)))"

definition get_first_available_inference_process :: "ProcessMap \<Rightarrow> HordeProcessInfo option" where
  "get_first_available_inference_process pm =
     find (\<lambda>p. process_type p = INFERENCE \<and> can_accept_job p) (pm_values pm)"

definition get_safety_process :: "ProcessMap \<Rightarrow> HordeProcessInfo option" where
  "get_safety_process pm = find (\<lambda>p. process_type p = SAFETY) (pm_values pm)"

definition num_safety_processes :: "ProcessMap \<Rightarrow> int" where
  "num_safety_processes pm =
     int (length (filter (\<lambda>p. process_type p = SAFETY) (pm_values pm)))"

definition get_first_available_safety_process :: "ProcessMap \<Rightarrow> HordeProcessInfo option" where
  "get_first_available_safety_process pm =
     find (\<lambda>p. process_type p = SAFETY \<and> can_accept_job p) (pm_values pm)"

definition get_process_by_horde_model_name :: "ProcessMap \<Rightarrow> string \<Rightarrow> HordeProcessInfo option" where
  "get_process_by_horde_model_name pm name =
     find (\<lambda>p. loaded_horde_model_name p = Some name) (pm_values pm)"

text \<open>
  \<^verbatim>\<open>ModelInfo\<close>, with the three fields \<^verbatim>\<open>HordeModelMap.update_entry\<close> gives its
  constructor; its field \<^verbatim>\<open>process_id\<close> is called \<open>model_process_id\<close> here, since a
  record field is a constant of the theory.
\<close>

record ModelInfo =
  horde_model_name :: string
  horde_model_load_state :: ModelLoadState
  model_process_id :: int

type_synonym HordeModelMap = "string \<rightharpoonup> ModelInfo"

definition HordeModelMap_update_entry ::
  "string \<Rightarrow> ModelLoadState option \<Rightarrow> int option \<Rightarrow> HordeModelMap \<Rightarrow> error + HordeModelMap" where
  "HordeModelMap_update_entry name ls pid m =
     (case m name of
        None \<Rightarrow>
          (case pid of
             None \<Rightarrow> Inl ValueError
           | Some p \<Rightarrow>
               (case ls of
                  None \<Rightarrow> Inl ValueError
                | Some l \<Rightarrow>
                    Inr (m(name \<mapsto> \<lparr>horde_model_name = name, horde_model_load_state = l,
                                     model_process_id = p\<rparr>))))
      | Some mi \<Rightarrow>
          Inr (m(name \<mapsto> set_opt pid (\<lambda>x q. q\<lparr>model_process_id := x\<rparr>)
                            (set_opt ls (\<lambda>x q. q\<lparr>horde_model_load_state := x\<rparr>) mi))))"

definition is_model_loaded :: "HordeModelMap \<Rightarrow> string \<Rightarrow> bool" where
  "is_model_loaded m name =
     (case m name of None \<Rightarrow> False | Some mi \<Rightarrow> is_loaded (horde_model_load_state mi))"

definition is_model_loading :: "HordeModelMap \<Rightarrow> string \<Rightarrow> bool" where
  "is_model_loading m name =
     (case m name of None \<Rightarrow> False | Some mi \<Rightarrow> horde_model_load_state mi = LOADING)"

subsection \<open>The manager\<close>

record reGenBridgeData =
  api_key :: string
  dreamer_worker_name :: string
  queue_size :: int
  image_models_to_load :: "string list"
  nsfw :: bool
  max_power :: int
  require_upfront_kudos :: bool
  allow_img2img :: bool
  allow_inpainting :: bool
  allow_unsafe_ip :: bool
  allow_post_processing :: bool
  allow_controlnet :: bool

text \<open>
  The attributes of \<^verbatim>\<open>HordeWorkerProcessManager\<close>, without the leading underscore
  Python gives the private ones. \<open>process_message_queue\<close> holds the messages the
  children have sent and the manager has not read yet, oldest first.
  \<open>stable_diffusion_reference\<close> maps a model name to the dump of its catalogue record.
\<close>

record HordeWorkerProcessManager =
  bridge_data :: reGenBridgeData
  max_inference_processes :: int
  max_concurrent_inference_processes :: int
  max_safety_processes :: int
  max_download_processes :: int
  total_ram_bytes :: int
  target_ram_overhead_bytes :: int
  process_map :: ProcessMap
  horde_model_map :: HordeModelMap
  stable_diffusion_reference :: "(string \<rightharpoonup> string) option"
  job_deque :: "ImageGenerateJobPopResponse list"
  jobs_in_progress :: "ImageGenerateJobPopResponse list"
  jobs_pending_safety_check :: "CompletedJobInfo list"
  jobs_being_safety_checked :: "CompletedJobInfo list"
  completed_jobs :: "CompletedJobInfo list"
  process_message_queue :: "HordeProcessMessage list"
  total_num_completed_jobs :: int
  testing_jobs_added :: int
  job_pop_frequency :: real
  last_job_pop_time :: real
  user_info :: "string option"
  user_info_failed :: bool
  user_info_failed_reason :: "string option"
  last_get_user_info_time :: real
  effects :: "effect list"

type_synonym outcome = "(error + unit) \<times> HordeWorkerProcessManager"

definition emit :: "effect \<Rightarrow> HordeWorkerProcessManager \<Rightarrow> HordeWorkerProcessManager" where
  "emit e s = s\<lparr>effects := effects s @ [e]\<rparr>"

definition testing_max_jobs :: int where "testing_max_jobs = 10000"
definition default_job_pop_frequency :: real where "default_job_pop_frequency = 1"
definition error_job_pop_frequency :: real where "error_job_pop_frequency = 5"
definition api_get_user_info_interval :: real where "api_get_user_info_interval = 5"
definition loop_interval :: real where "loop_interval = 1 / 10"
definition api_call_loop_interval :: real where "api_call_loop_interval = 1 / 10"

definition target_ram_bytes_used :: "HordeWorkerProcessManager \<Rightarrow> int" where
  "target_ram_bytes_used s = total_ram_bytes s - target_ram_overhead_bytes s"

definition get_process_total_ram_usage :: "HordeWorkerProcessManager \<Rightarrow> int" where
  "get_process_total_ram_usage s = sum_list (map ram_usage_bytes (pm_values (process_map s)))"


subsection \<open>The message dispatcher\<close>

text \<open>
  The loop of a \<^verbatim>\<open>SafetyResult\<close> over the images of the record:
  \<^verbatim>\<open>for i in range(len(images))\<close>, reading \<^verbatim>\<open>message.safety_evaluations[i]\<close>
  (an \<^verbatim>\<open>IndexError\<close> when the message has fewer evaluations than the record has
  images). The accumulator is the image list, \<^verbatim>\<open>num_images_censored\<close> and
  \<^verbatim>\<open>num_images_csam\<close>.
\<close>

fun evaluate_images ::
  "nat list \<Rightarrow> safety_evaluation list \<Rightarrow> string list \<times> int \<times> int
   \<Rightarrow> error + (string list \<times> int \<times> int)" where
  "evaluate_images [] evs acc = Inr acc"
| "evaluate_images (i # is) evs (imgs, num_censored, num_csam) =
     (if length evs \<le> i then Inl IndexError
      else case replacement_image_base64 (evs ! i) of
             None \<Rightarrow> evaluate_images is evs (imgs, num_censored, num_csam)
           | Some replacement_image \<Rightarrow>
               evaluate_images is evs
                 (imgs[i := replacement_image], num_censored + 1,
                  if is_csam (evs ! i) then num_csam + 1 else num_csam))"

text \<open>
  The search of \<^verbatim>\<open>jobs_being_safety_checked\<close> for the first record with the message's
  job id, which is popped from the list: the record found, if any, and the list without it.
\<close>

fun pop_by_job_id ::
  "string \<Rightarrow> CompletedJobInfo list \<Rightarrow> CompletedJobInfo option \<times> CompletedJobInfo list" where
  "pop_by_job_id jid [] = (None, [])"
| "pop_by_job_id jid (r # rs) =
     (if job_id (job_info r) = Some jid then (Some r, rs)
      else case pop_by_job_id jid rs of (found, rest) \<Rightarrow> (found, r # rest))"

definition handle_safety_result ::
  "string \<Rightarrow> safety_evaluation list \<Rightarrow> HordeWorkerProcessManager \<Rightarrow> outcome" where
  "handle_safety_result msg_job_id safety_evaluations s =
     (case pop_by_job_id msg_job_id (jobs_being_safety_checked s) of
        (None, _) \<Rightarrow> (Inl ValueError, s)
      | (Some completed_job_info, rest) \<Rightarrow>
          (let s1 = s\<lparr>jobs_being_safety_checked := rest\<rparr> in
           case job_result_images_base64 completed_job_info of
             None \<Rightarrow> (Inl ValueError, s1)
           | Some images \<Rightarrow>
               (case evaluate_images [0..<length images] safety_evaluations (images, 0, 0) of
                  Inl e \<Rightarrow> (Inl e, s1)
                | Inr (images', num_images_censored, num_images_csam) \<Rightarrow>
                    (let r1 = completed_job_info\<lparr>job_result_images_base64 := Some images'\<rparr>;
                         r2 = (if num_images_censored > 0
                               then r1\<lparr>censored := Some True,
                                       state := (if num_images_csam > 0 then GS_csam else GS_censored)\<rparr>
                               else r1\<lparr>censored := Some False\<rparr>)
                     in (Inr (), s1\<lparr>completed_jobs := completed_jobs s1 @ [r2]\<rparr>)))))"

definition handle_inference_result ::
  "ImageGenerateJobPopResponse \<Rightarrow> string list option \<Rightarrow> GENERATION_STATE
   \<Rightarrow> HordeWorkerProcessManager \<Rightarrow> outcome" where
  "handle_inference_result msg_job_info msg_images msg_state s =
     (case msg_images of
        None \<Rightarrow>
          (Inr (), emit (Log ERROR ''Received an inference result message with a None job_result'') s)
      | Some images \<Rightarrow>
          (let num_jobs_in_progress = int (length (jobs_in_progress s));
               s1 = s\<lparr>jobs_in_progress :=
                         filter (\<lambda>job. job_id job \<noteq> job_id msg_job_info) (jobs_in_progress s)\<rparr>;
               s2 = (if int (length (jobs_in_progress s1)) \<noteq> num_jobs_in_progress - 1
                     then emit (Log WARNING ''Expected to remove 1 job from the jobs in progress'') s1
                     else s1)
           in case job_deque s2 of
                [] \<Rightarrow> (Inl IndexError, s2)
              | _ # rest \<Rightarrow>
                  (Inr (),
                   s2\<lparr>job_deque := rest,
                      total_num_completed_jobs := total_num_completed_jobs s2 + 1,
                      jobs_pending_safety_check :=
                        jobs_pending_safety_check s2 @
                          [\<lparr>job_info = msg_job_info, job_result_images_base64 = Some images,
                            state = msg_state, censored = None\<rparr>]\<rparr>)))"

definition with_process_map ::
  "error + ProcessMap \<Rightarrow> HordeWorkerProcessManager \<Rightarrow> outcome" where
  "with_process_map r s =
     (case r of Inl e \<Rightarrow> (Inl e, s) | Inr pm \<Rightarrow> (Inr (), s\<lparr>process_map := pm\<rparr>))"

definition handle_model_state_change ::
  "int \<Rightarrow> string \<Rightarrow> ModelLoadState \<Rightarrow> HordeWorkerProcessManager \<Rightarrow> outcome" where
  "handle_model_state_change pid name st s =
     (case HordeModelMap_update_entry name (Some st) (Some pid) (horde_model_map s) of
        Inl e \<Rightarrow> (Inl e, s)
      | Inr mm \<Rightarrow>
          (let s1 = s\<lparr>horde_model_map := mm\<rparr> in
           if st = LOADED_IN_VRAM \<or> st = LOADED_IN_RAM
           then with_process_map
                  (ProcessMap_update_entry pid None (Some name) None None None (process_map s1)) s1
           else if st = ON_DISK
           then with_process_map
                  (ProcessMap_update_entry pid None None None None None (process_map s1)) s1
           else (Inr (), s1)))"

text \<open>
  The body of the dispatcher's loop for one message taken from the queue. The message
  classes are siblings, so the chain of \<^verbatim>\<open>isinstance\<close> tests of the source is a case
  distinction. A message of an unknown process raises before anything is written.
\<close>

definition handle_message :: "HordeProcessMessage \<Rightarrow> HordeWorkerProcessManager \<Rightarrow> outcome" where
  "handle_message message s =
     (if \<not> pm_contains (process_map s) (message_process_id message) then (Inl ValueError, s)
      else case message of
        HordeProcessStateChangeMessage pid process_state \<Rightarrow>
          with_process_map
            (ProcessMap_update_entry pid (Some process_state) None None None None (process_map s)) s
      | HordeModelStateChangeMessage pid name st \<Rightarrow> handle_model_state_change pid name st s
      | HordeProcessMemoryMessage pid ram vram vram_total \<Rightarrow>
          with_process_map
            (ProcessMap_update_entry pid None None (Some ram) (Some vram) (Some vram_total)
               (process_map s)) s
      | HordeInferenceResultMessage pid msg_job_info msg_images msg_state \<Rightarrow>
          handle_inference_result msg_job_info msg_images msg_state s
      | HordeSafetyResultMessage pid msg_job_id safety_evaluations \<Rightarrow>
          handle_safety_result msg_job_id safety_evaluations s)"

text \<open>
  \<^verbatim>\<open>receive_and_handle_process_messages\<close>: while the queue is not empty, take its
  oldest message and handle it. Nothing in the loop catches an exception: a message
  that raises ends the method, and the messages behind it stay in the queue.
\<close>

fun drain_messages :: "HordeProcessMessage list \<Rightarrow> HordeWorkerProcessManager \<Rightarrow> outcome" where
  "drain_messages [] s = (Inr (), s)"
| "drain_messages (message # rest) s =
     (case handle_message message (s\<lparr>process_message_queue := rest\<rparr>) of
        (Inl e, s') \<Rightarrow> (Inl e, s')
      | (Inr _, s') \<Rightarrow> drain_messages rest s')"

definition receive_and_handle_process_messages :: "HordeWorkerProcessManager \<Rightarrow> outcome" where
  "receive_and_handle_process_messages s = drain_messages (process_message_queue s) s"


subsection \<open>The scheduler\<close>

text \<open>
  \<^verbatim>\<open>preload_models\<close>: the loop over the deque, with \<^verbatim>\<open>num_already_loaded_model\<close> as
  accumulator. It ends at the first job whose model is neither loaded nor loading.
\<close>

fun preload_loop ::
  "ImageGenerateJobPopResponse list \<Rightarrow> int \<Rightarrow> HordeWorkerProcessManager \<Rightarrow> outcome" where
  "preload_loop [] num_already_loaded_model s = (Inr (), s)"
| "preload_loop (job # rest) num_already_loaded_model s =
     (case model job of
        None \<Rightarrow> (Inl ValueError, s)
      | Some m \<Rightarrow>
          if is_model_loaded (horde_model_map s) m \<or> is_model_loading (horde_model_map s) m
          then preload_loop rest (num_already_loaded_model + 1) s
          else if num_already_loaded_model \<ge> num_inference_processes (process_map s)
          then (Inr (), s)
          else case get_first_available_inference_process (process_map s) of
                 None \<Rightarrow> (Inr (), s)
               | Some available_process \<Rightarrow>
                   (let will_load_loras =
                          (case loras (payload job) of None \<Rightarrow> False | Some l \<Rightarrow> length l > 0);
                        seamless_tiling_enabled =
                          (case tiling (payload job) of None \<Rightarrow> False | Some t \<Rightarrow> t);
                        pid = process_id available_process;
                        s1 = emit (Send pid (PRELOAD_MODEL m will_load_loras seamless_tiling_enabled)) s
                    in case HordeModelMap_update_entry m (Some LOADING) (Some pid) (horde_model_map s1) of
                         Inl e \<Rightarrow> (Inl e, s1)
                       | Inr mm \<Rightarrow>
                           with_process_map
                             (ProcessMap_update_entry pid None (Some m) None None None (process_map s1))
                             (s1\<lparr>horde_model_map := mm\<rparr>)))"

definition preload_models :: "HordeWorkerProcessManager \<Rightarrow> outcome" where
  "preload_models s = preload_loop (job_deque s) 0 s"

text \<open>
  The loop of \<^verbatim>\<open>start_inference\<close> that asks every other idle process with a model to
  unload it from VRAM, sleeping a tenth of a second after each message.
\<close>

fun unload_other_processes ::
  "HordeProcessInfo list \<Rightarrow> HordeProcessInfo \<Rightarrow> HordeWorkerProcessManager \<Rightarrow> HordeWorkerProcessManager" where
  "unload_other_processes [] process_with_model s = s"
| "unload_other_processes (process_info # rest) process_with_model s =
     (if process_id process_info = process_id process_with_model
      then unload_other_processes rest process_with_model s
      else if is_process_busy process_info
      then unload_other_processes rest process_with_model s
      else case loaded_horde_model_name process_info of
             None \<Rightarrow> unload_other_processes rest process_with_model s
           | Some name \<Rightarrow>
               unload_other_processes rest process_with_model
                 (emit (Sleep (1 / 10))
                    (emit (Send (process_id process_info) (UNLOAD_MODELS_FROM_VRAM name)) s)))"

definition start_inference :: "HordeWorkerProcessManager \<Rightarrow> outcome" where
  "start_inference s =
     (if int (length (jobs_in_progress s)) \<ge> max_concurrent_inference_processes s then (Inr (), s)
      else case find (\<lambda>job. job \<notin> set (jobs_in_progress s)) (job_deque s) of
             None \<Rightarrow> (Inr (), s)
           | Some next_job \<Rightarrow>
               (case model next_job of
                  None \<Rightarrow> (Inl ValueError, s)
                | Some m \<Rightarrow>
                    if is_model_loaded (horde_model_map s) m
                    then (case get_process_by_horde_model_name (process_map s) m of
                            None \<Rightarrow>
                              (Inr (), emit (Log ERROR ''Expected to find a process with model'') s)
                          | Some process_with_model \<Rightarrow>
                              if \<not> can_accept_job process_with_model then (Inr (), s)
                              else (let s1 = unload_other_processes (pm_values (process_map s))
                                               process_with_model s;
                                        s2 = s1\<lparr>jobs_in_progress := jobs_in_progress s1 @ [next_job]\<rparr>
                                    in (Inr (),
                                        emit (Send (process_id process_with_model)
                                                (START_INFERENCE m next_job)) s2)))
                    else (Inr (), s)))"

text \<open>
  \<^verbatim>\<open>unload_from_ram\<close>. Its last statement calls \<^verbatim>\<open>update_entry\<close> with
  \<^verbatim>\<open>loaded_horde_model_name=None\<close>, which is the call with no field to write.
\<close>

definition unload_from_ram :: "int \<Rightarrow> HordeWorkerProcessManager \<Rightarrow> outcome" where
  "unload_from_ram pid s =
     (case map_of (process_map s) pid of
        None \<Rightarrow> (Inl ValueError, s)
      | Some process_info \<Rightarrow>
          (case loaded_horde_model_name process_info of
             None \<Rightarrow> (Inl ValueError, s)
           | Some name \<Rightarrow>
               if \<not> is_model_loaded (horde_model_map s) name then (Inl ValueError, s)
               else (let s1 = emit (Send (process_id process_info) (UNLOAD_MODELS_FROM_RAM name)) s
                     in case HordeModelMap_update_entry name (Some ON_DISK) (Some pid)
                               (horde_model_map s1) of
                          Inl e \<Rightarrow> (Inl e, s1)
                        | Inr mm \<Rightarrow>
                            with_process_map
                              (ProcessMap_update_entry pid None None None None None (process_map s1))
                              (s1\<lparr>horde_model_map := mm\<rparr>))))"

text \<open>
  The inner loop of \<^verbatim>\<open>unload_models\<close>: the distinct models of the jobs at the left of the
  deque, until \<^verbatim>\<open>max_concurrent_inference_processes\<close> of them are collected or the deque
  ends. The Python set is a list without repetitions.
\<close>

fun next_n_models ::
  "ImageGenerateJobPopResponse list \<Rightarrow> int \<Rightarrow> string list \<Rightarrow> error + string list" where
  "next_n_models [] max_models acc = Inr acc"
| "next_n_models (job # rest) max_models acc =
     (if \<not> int (length acc) < max_models then Inr acc
      else case model job of
             None \<Rightarrow> Inl ValueError
           | Some model_name \<Rightarrow>
               next_n_models rest max_models
                 (if model_name \<in> set acc then acc else acc @ [model_name]))"

fun unload_loop :: "HordeProcessInfo list \<Rightarrow> HordeWorkerProcessManager \<Rightarrow> outcome" where
  "unload_loop [] s = (Inr (), s)"
| "unload_loop (process_info # rest) s =
     (if is_process_busy process_info then unload_loop rest s
      else case loaded_horde_model_name process_info of
             None \<Rightarrow> unload_loop rest s
           | Some name \<Rightarrow>
               if is_model_loading (horde_model_map s) name then unload_loop rest s
               else case next_n_models (job_deque s) (max_concurrent_inference_processes s) [] of
                      Inl e \<Rightarrow> (Inl e, s)
                    | Inr models \<Rightarrow>
                        if name \<in> set models then unload_loop rest s
                        else if get_process_total_ram_usage s > target_ram_bytes_used s
                        then (case unload_from_ram (process_id process_info) s of
                                (Inl e, s') \<Rightarrow> (Inl e, s')
                              | (Inr _, s') \<Rightarrow> unload_loop rest s')
                        else unload_loop rest s)"

text \<open>
  \<^verbatim>\<open>unload_models\<close> walks the process entries as they are when it starts; no statement
  of the loop writes a field of a process entry, so the entries read during the walk are
  these.
\<close>

definition unload_models :: "HordeWorkerProcessManager \<Rightarrow> outcome" where
  "unload_models s = unload_loop (pm_values (process_map s)) s"

definition start_evaluate_safety :: "HordeWorkerProcessManager \<Rightarrow> outcome" where
  "start_evaluate_safety s =
     (case jobs_pending_safety_check s of
        [] \<Rightarrow> (Inr (), s)
      | completed_job_info # _ \<Rightarrow>
          (case get_first_available_safety_process (process_map s) of
             None \<Rightarrow> (Inr (), s)
           | Some safety_process \<Rightarrow>
               (case job_result_images_base64 completed_job_info of
                  None \<Rightarrow> (Inl ValueError, s)
                | Some images \<Rightarrow>
                    if length images > 1 then (Inl NotImplementedError, s)
                    else case job_id (job_info completed_job_info) of
                      None \<Rightarrow> (Inl ValueError, s)
                    | Some jid \<Rightarrow>
                   (case model (job_info completed_job_info) of
                      None \<Rightarrow> (Inl ValueError, s)
                    | Some m \<Rightarrow>
                   (case stable_diffusion_reference s of
                      None \<Rightarrow> (Inl ValueError, s)
                    | Some reference \<Rightarrow>
                   (case prompt (payload (job_info completed_job_info)) of
                      None \<Rightarrow> (Inl ValueError, s)
                    | Some p \<Rightarrow>
                        (let s1 = s\<lparr>jobs_pending_safety_check :=
                                      remove1 completed_job_info (jobs_pending_safety_check s),
                                    jobs_being_safety_checked :=
                                      jobs_being_safety_checked s @ [completed_job_info]\<rparr>
                         in case reference m of
                              None \<Rightarrow> (Inl KeyError, s1)
                            | Some horde_model_info \<Rightarrow>
                                (Inr (),
                                 emit (Send (process_id safety_process)
                                         (EVALUATE_SAFETY jid images p
                                            (use_nsfw_censor (payload (job_info completed_job_info)))
                                            (\<not> nsfw (bridge_data s1)) horde_model_info)) s1))))))))"

subsection \<open>Starting and ending processes\<close>

text \<open>
  The constructor. It builds a semaphore of \<^verbatim>\<open>max_concurrent_inference_processes\<close>
  permits, which the multiprocessing library refuses for a negative number, and then
  compares the RAM overhead with the RAM of the machine (\<open>total_ram\<close>, read from the
  operating system). It returns once the model catalogue \<open>reference\<close> has been read.
\<close>

definition init ::
  "reGenBridgeData \<Rightarrow> int \<Rightarrow> int \<Rightarrow> int \<Rightarrow> int \<Rightarrow> int \<Rightarrow> int \<Rightarrow> (string \<rightharpoonup> string)
   \<Rightarrow> error + HordeWorkerProcessManager" where
  "init bd total_ram ram_overhead max_inference max_safety max_download max_concurrent reference =
     (if max_concurrent < 0 then Inl OSError
      else if ram_overhead > total_ram then Inl ValueError
      else Inr \<lparr>bridge_data = bd,
                max_inference_processes = max_inference,
                max_concurrent_inference_processes = max_concurrent,
                max_safety_processes = max_safety,
                max_download_processes = max_download,
                total_ram_bytes = total_ram,
                target_ram_overhead_bytes = ram_overhead,
                process_map = [],
                horde_model_map = Map.empty,
                stable_diffusion_reference = Some reference,
                job_deque = [],
                jobs_in_progress = [],
                jobs_pending_safety_check = [],
                jobs_being_safety_checked = [],
                completed_jobs = [],
                process_message_queue = [],
                total_num_completed_jobs = 0,
                testing_jobs_added = 0,
                job_pop_frequency = 1,
                last_job_pop_time = 0,
                user_info = None,
                user_info_failed = False,
                user_info_failed_reason = None,
                last_get_user_info_time = 0,
                effects = []\<rparr>)"

definition new_process :: "int \<Rightarrow> HordeProcessKind \<Rightarrow> HordeProcessInfo" where
  "new_process pid kind =
     \<lparr>process_id = pid, process_type = kind, last_process_state = PROCESS_STARTING,
      loaded_horde_model_name = None, ram_usage_bytes = 0, vram_usage_bytes = 0,
      total_vram_bytes = 0\<rparr>"

fun spawn_processes :: "nat \<Rightarrow> HordeProcessKind \<Rightarrow> HordeWorkerProcessManager \<Rightarrow> HordeWorkerProcessManager" where
  "spawn_processes 0 kind s = s"
| "spawn_processes (Suc n) kind s =
     (let pid = int (length (process_map s));
          s1 = emit (Spawn pid kind) s
      in spawn_processes n kind
           (s1\<lparr>process_map := pm_set pid (new_process pid kind) (process_map s1)\<rparr>))"

definition start_safety_processes :: "HordeWorkerProcessManager \<Rightarrow> outcome" where
  "start_safety_processes s =
     (let num_processes_to_start = max_safety_processes s - num_safety_processes (process_map s)
      in if num_processes_to_start < 0
         then (Inl ValueError, emit (Log CRITICAL ''There are already too many safety processes running'') s)
         else (Inr (), spawn_processes (nat num_processes_to_start) SAFETY s))"

definition start_inference_processes :: "HordeWorkerProcessManager \<Rightarrow> outcome" where
  "start_inference_processes s =
     (let num_processes_to_start =
            max_inference_processes s - num_inference_processes (process_map s)
      in if num_processes_to_start < 0
         then (Inl ValueError, emit (Log CRITICAL ''There are already too many inference processes running'') s)
         else (Inr (), spawn_processes (nat num_processes_to_start) INFERENCE s))"

fun shutdown_scan :: "HordeProcessInfo list \<Rightarrow> bool \<Rightarrow> bool" where
  "shutdown_scan [] any_process_alive = (\<not> any_process_alive)"
| "shutdown_scan (process_info # rest) any_process_alive =
     (if is_process_busy process_info then False
      else if last_process_state process_info \<noteq> PROCESS_ENDED then shutdown_scan rest True
      else shutdown_scan rest any_process_alive)"

definition is_time_for_shutdown :: "HordeWorkerProcessManager \<Rightarrow> bool" where
  "is_time_for_shutdown s =
     (if length (jobs_in_progress s) > 0 then False
      else if length (job_deque s) > 0 then False
      else shutdown_scan (pm_values (process_map s)) False)"

definition is_free_inference_process_available :: "HordeWorkerProcessManager \<Rightarrow> bool" where
  "is_free_inference_process_available s =
     (num_available_inference_processes (process_map s) > 0)"

fun end_processes :: "nat \<Rightarrow> HordeWorkerProcessManager \<Rightarrow> outcome" where
  "end_processes 0 s = (Inr (), s)"
| "end_processes (Suc n) s =
     (case get_first_available_inference_process (process_map s) of
        None \<Rightarrow>
          (Inl ValueError, emit (Log CRITICAL ''Expected to find inference processes to end, but found none'') s)
      | Some process_info \<Rightarrow>
          (let s1 = emit (Send (process_id process_info) END_PROCESS) s
           in case with_process_map
                     (ProcessMap_update_entry (process_id process_info) None None None None None
                        (process_map s1)) s1 of
                (Inl e, s') \<Rightarrow> (Inl e, s')
              | (Inr _, s') \<Rightarrow> end_processes n s'))"

definition end_inference_processes :: "HordeWorkerProcessManager \<Rightarrow> outcome" where
  "end_inference_processes s =
     (let num_processes_to_end =
            (if is_time_for_shutdown s then num_inference_processes (process_map s)
             else num_inference_processes (process_map s) - max_inference_processes s)
      in if num_processes_to_end < 0
         then (Inl ValueError, emit (Log CRITICAL ''There are already too many inference processes running'') s)
         else end_processes (nat num_processes_to_end) s)"


subsection \<open>The API calls\<close>

text \<open>
  What the dispatch API answers to \<^verbatim>\<open>submit_request\<close>: the call raises, or it returns a
  \<^verbatim>\<open>RequestErrorResponse\<close>, or it returns the response asked for.
\<close>

datatype 'a api_result = Raised | RequestErrorResponse | Response 'a

text \<open>
  How a user lookup ends. The request object is built before the \<^verbatim>\<open>try\<close>: when the
  SDK refuses to build it (it validates the API key), the exception leaves the method.
  Inside the \<^verbatim>\<open>try\<close>, the call raises an \<^verbatim>\<open>aiohttp\<close> \<^verbatim>\<open>ClientError\<close> or any other
  exception, each with the name of its type and its text, or it returns an error
  response, or it returns the account record.
\<close>

datatype find_user_result =
    FindUserRequestInvalid
  | FindUserClientError string string
  | FindUserException string string
  | FindUserErrorResponse
  | FindUserResponse string

text \<open>
  The answers of the outside world during one iteration of the API loop: the four
  readings of \<^verbatim>\<open>time.time()\<close>, the API's answers, whether the file of a popped job can
  be written, the re-encoding of an image as WebP (\<open>None\<close> when decoding or encoding
  raises), the status of the HTTP PUT (\<open>None\<close> when \<^verbatim>\<open>requests.put\<close> raises) and the
  value of \<^verbatim>\<open>int(seed)\<close> (\<open>None\<close> when the seed is not a number). The job pop and
  the submit build their request objects inside their \<^verbatim>\<open>try\<close>; an exception while
  one is built is not told apart from one raised while it is sent.
\<close>

record api_env =
  time_user_info_check :: real
  time_user_info_set :: real
  time_pop_check :: real
  time_pop_set :: real
  pop_job :: "ImageGenerateJobPopRequest \<Rightarrow> ImageGenerateJobPopResponse api_result"
  write_file_ok :: bool
  base64_image_to_stream_buffer :: "string \<Rightarrow> string option"
  requests_put :: "string \<Rightarrow> string \<Rightarrow> int option"
  int_of_seed :: "string \<Rightarrow> int option"
  submit_job :: "JobSubmitRequest \<Rightarrow> int api_result"
  find_user :: "string \<Rightarrow> find_user_result"

definition log_unexpected_submit_error :: "HordeWorkerProcessManager \<Rightarrow> HordeWorkerProcessManager" where
  "log_unexpected_submit_error s = emit (Log ERROR ''Failed to submit job (Unexpected Error)'') s"

text \<open>
  The \<^verbatim>\<open>try\<close> block of \<^verbatim>\<open>api_submit_job\<close>: every exception in it is caught and logged,
  and the method returns. The upload counts as done only for the status 200.
\<close>

definition submit_try ::
  "api_env \<Rightarrow> CompletedJobInfo \<Rightarrow> string list \<Rightarrow> string \<Rightarrow> string \<Rightarrow> string \<Rightarrow> bool
   \<Rightarrow> HordeWorkerProcessManager \<Rightarrow> HordeWorkerProcessManager" where
  "submit_try env completed_job_info images jid job_seed url is_censored s =
     (case images of
        [] \<Rightarrow> log_unexpected_submit_error s
      | first_image # _ \<Rightarrow>
          (case base64_image_to_stream_buffer env first_image of
             None \<Rightarrow> log_unexpected_submit_error s
           | Some image_in_buffer \<Rightarrow>
               (let s1 = emit (HttpPut url image_in_buffer) s in
                case requests_put env url image_in_buffer of
                  None \<Rightarrow> log_unexpected_submit_error s1
                | Some status_code \<Rightarrow>
                    if status_code \<noteq> 200
                    then emit (Log ERROR ''Failed to upload image to R2'') s1
                    else (case int_of_seed env job_seed of
                            None \<Rightarrow> log_unexpected_submit_error s1
                          | Some seed_int \<Rightarrow>
                              (let submit_job_request =
                                     \<lparr>sub_apikey = api_key (bridge_data s1), sub_id = jid,
                                      sub_seed = seed_int, sub_generation = ''R2'',
                                      sub_state = state completed_job_info,
                                      sub_censored = is_censored\<rparr>;
                                   s2 = emit (JobSubmit submit_job_request) s1
                               in case submit_job env submit_job_request of
                                    Raised \<Rightarrow> log_unexpected_submit_error s2
                                  | RequestErrorResponse \<Rightarrow>
                                      emit (Log ERROR ''Failed to submit job (API Error)'') s2
                                  | Response reward \<Rightarrow>
                                      if completed_job_info \<in> set (completed_jobs s2)
                                      then s2\<lparr>completed_jobs :=
                                                remove1 completed_job_info (completed_jobs s2)\<rparr>
                                      else log_unexpected_submit_error s2)))))"

definition api_submit_job :: "api_env \<Rightarrow> HordeWorkerProcessManager \<Rightarrow> outcome" where
  "api_submit_job env s =
     (case completed_jobs s of
        [] \<Rightarrow> (Inr (), s)
      | completed_job_info # _ \<Rightarrow>
          (case job_result_images_base64 completed_job_info of
             None \<Rightarrow> (Inl ValueError, s)
           | Some images \<Rightarrow>
               if length images > 1 then (Inl NotImplementedError, s)
               else case job_id (job_info completed_job_info) of
                 None \<Rightarrow> (Inl ValueError, s)
               | Some jid \<Rightarrow>
              (case seed (payload (job_info completed_job_info)) of
                 None \<Rightarrow> (Inl ValueError, s)
               | Some job_seed \<Rightarrow>
              (case r2_upload (job_info completed_job_info) of
                 None \<Rightarrow> (Inl ValueError, s)
               | Some url \<Rightarrow>
              (case censored completed_job_info of
                 None \<Rightarrow> (Inl ValueError, s)
               | Some is_censored \<Rightarrow>
                   (Inr (), submit_try env completed_job_info images jid job_seed url is_censored s))))))"

definition job_pop_request :: "HordeWorkerProcessManager \<Rightarrow> ImageGenerateJobPopRequest" where
  "job_pop_request s =
     \<lparr>req_apikey = api_key (bridge_data s),
      req_name = dreamer_worker_name (bridge_data s),
      req_bridge_version = 23,
      req_models = image_models_to_load (bridge_data s),
      req_nsfw = nsfw (bridge_data s),
      req_threads = max_concurrent_inference_processes s,
      req_max_pixels = max_power (bridge_data s) * 8 * 64 * 64,
      req_require_upfront_kudos = require_upfront_kudos (bridge_data s),
      req_allow_img2img = allow_img2img (bridge_data s),
      req_allow_painting = allow_inpainting (bridge_data s),
      req_allow_unsafe_ipaddr = allow_unsafe_ip (bridge_data s),
      req_allow_post_processing = allow_post_processing (bridge_data s),
      req_allow_controlnet = allow_controlnet (bridge_data s),
      req_allow_lora = False\<rparr>"

definition api_job_pop :: "api_env \<Rightarrow> HordeWorkerProcessManager \<Rightarrow> outcome" where
  "api_job_pop env s =
     (if int (length (job_deque s)) \<ge> queue_size (bridge_data s) + 1 then (Inr (), s)
      else if testing_jobs_added s \<ge> testing_max_jobs then (Inr (), s)
      else if time_pop_check env - last_job_pop_time s < job_pop_frequency s then (Inr (), s)
      else (let s1 = s\<lparr>last_job_pop_time := time_pop_set env\<rparr>;
                s2 = emit (JobPop (job_pop_request s1)) s1
            in case pop_job env (job_pop_request s1) of
                 Raised \<Rightarrow>
                   (Inr (), (emit (Log ERROR ''Failed to pop job (Unexpected Error)'') s2)
                              \<lparr>job_pop_frequency := error_job_pop_frequency\<rparr>)
               | RequestErrorResponse \<Rightarrow>
                   (Inr (), (emit (Log ERROR ''Failed to pop job (API Error)'') s2)
                              \<lparr>job_pop_frequency := error_job_pop_frequency\<rparr>)
               | Response job_pop_response \<Rightarrow>
                   (let s3 = s2\<lparr>job_pop_frequency := default_job_pop_frequency\<rparr> in
                    case job_id job_pop_response of
                      None \<Rightarrow> (Inr (), s3)
                    | Some jid \<Rightarrow>
                        (let s4 = s3\<lparr>job_deque := job_deque s3 @ [job_pop_response],
                                     testing_jobs_added := testing_jobs_added s3 + 1\<rparr>;
                             s5 = emit (WriteFile (''testing/'' @ jid)) s4
                         in if write_file_ok env then (Inr (), s5) else (Inl OSError, s5)))))"

definition api_get_user_info :: "api_env \<Rightarrow> HordeWorkerProcessManager \<Rightarrow> outcome" where
  "api_get_user_info env s =
     (let s1 = emit (FindUser (api_key (bridge_data s))) s in
      case find_user env (api_key (bridge_data s)) of
        FindUserRequestInvalid \<Rightarrow> (Inl ValidationError, s)
      | FindUserErrorResponse \<Rightarrow>
          (Inr (), (emit (Log ERROR ''Failed to get user info (API Error)'') s1)
                     \<lparr>user_info_failed := True\<rparr>)
      | FindUserResponse response \<Rightarrow>
          (Inr (), s1\<lparr>user_info := Some response, user_info_failed := False,
                      user_info_failed_reason := None\<rparr>)
      | FindUserClientError type_name text \<Rightarrow>
          (Inr (), s1\<lparr>user_info_failed := True,
                      user_info_failed_reason :=
                        Some (''HTTP error (('' @ type_name @ '') '' @ text @ '')'')\<rparr>)
      | FindUserException type_name text \<Rightarrow>
          (Inr (), s1\<lparr>user_info_failed := True,
                      user_info_failed_reason :=
                        Some (''Unexpected error (('' @ type_name @ '') '' @ text @ '')'')\<rparr>))"

text \<open>
  One iteration of \<^verbatim>\<open>_api_call_loop\<close>. The tasks it gathers are \<^verbatim>\<open>api_job_pop\<close> and
  \<^verbatim>\<open>api_submit_job\<close>; the line that would add \<^verbatim>\<open>api_get_user_info\<close> to them is
  commented out in the source, so the test of the user-info interval only stores the
  time. The two tasks write disjoint attributes and are run one after the other here;
  \<^verbatim>\<open>gather\<close> is called with \<^verbatim>\<open>return_exceptions=True\<close>, so what they raise is dropped.
\<close>

definition api_call_loop_iteration :: "api_env \<Rightarrow> HordeWorkerProcessManager \<Rightarrow> HordeWorkerProcessManager" where
  "api_call_loop_iteration env s =
     (let s1 = (if user_info_failed s then emit (Sleep 5) s else s);
          s2 = (if last_get_user_info_time s1 + api_get_user_info_interval < time_user_info_check env
                then s1\<lparr>last_get_user_info_time := time_user_info_set env\<rparr> else s1);
          s3 = snd (api_job_pop env s2);
          s4 = snd (api_submit_job env s3);
          s5 = (if user_info_failed s4
                then emit (Log ERROR ''The server failed to respond. Is the horde or your internet down?'') s4
                else s4)
      in emit (Sleep api_call_loop_interval) s5)"

subsection \<open>The process control loop\<close>

text \<open>
  One iteration of the \<^verbatim>\<open>while True\<close> of \<^verbatim>\<open>_process_control_loop\<close>: \<open>Inr True\<close> when the
  iteration reaches its sleep, \<open>Inr False\<close> when the loop ends (\<^verbatim>\<open>return\<close> or \<^verbatim>\<open>break\<close>),
  \<open>Inl e\<close> when a call raises: the loop has no handler, so the exception ends it.
\<close>

definition and_then :: "outcome \<Rightarrow> (HordeWorkerProcessManager \<Rightarrow> outcome) \<Rightarrow> outcome" where
  "and_then r f = (case r of (Inl e, s) \<Rightarrow> (Inl e, s) | (Inr _, s) \<Rightarrow> f s)"

definition schedule :: "HordeWorkerProcessManager \<Rightarrow> outcome" where
  "schedule s =
     (if is_free_inference_process_available s \<and> length (job_deque s) > 0
      then and_then (and_then (preload_models s) start_inference) unload_models
      else (Inr (), s))"

definition process_control_loop_iteration ::
  "HordeWorkerProcessManager \<Rightarrow> (error + bool) \<times> HordeWorkerProcessManager" where
  "process_control_loop_iteration s =
     (if stable_diffusion_reference s = None then (Inr False, s)
      else case receive_and_handle_process_messages s of
        (Inl e, s1) \<Rightarrow> (Inl e, s1)
      | (Inr _, s1) \<Rightarrow>
          (case (if length (jobs_pending_safety_check s1) > 0 then start_evaluate_safety s1
                 else (Inr (), s1)) of
             (Inl e, s2) \<Rightarrow> (Inl e, s2)
           | (Inr _, s2) \<Rightarrow>
               if is_time_for_shutdown s2 then (Inr False, s2)
               else (case schedule s2 of
                       (Inl e, s3) \<Rightarrow> (Inl e, s3)
                     | (Inr _, s3) \<Rightarrow> (Inr True, emit (Sleep loop_interval) s3))))"

subsection \<open>The states the manager can reach\<close>

text \<open>
  A step of the manager is one call of one of its methods, with any answer of the
  outside world, or the arrival of a message from a child in the queue. The state a
  method leaves is a successor whether the method returned or raised. The two loops
  only ever call these methods, in their own order, so every state the running
  manager is in between two calls is reachable by these steps.
\<close>

inductive step :: "HordeWorkerProcessManager \<Rightarrow> HordeWorkerProcessManager \<Rightarrow> bool" where
  step_message_arrives: "step s (s\<lparr>process_message_queue := process_message_queue s @ [message]\<rparr>)"
| step_dispatch: "step s (snd (receive_and_handle_process_messages s))"
| step_start_evaluate_safety: "step s (snd (start_evaluate_safety s))"
| step_preload_models: "step s (snd (preload_models s))"
| step_start_inference: "step s (snd (start_inference s))"
| step_unload_models: "step s (snd (unload_models s))"
| step_unload_from_ram: "step s (snd (unload_from_ram pid s))"
| step_start_safety_processes: "step s (snd (start_safety_processes s))"
| step_start_inference_processes: "step s (snd (start_inference_processes s))"
| step_end_inference_processes: "step s (snd (end_inference_processes s))"
| step_api_job_pop: "step s (snd (api_job_pop env s))"
| step_api_submit_job: "step s (snd (api_submit_job env s))"
| step_api_get_user_info: "step s (snd (api_get_user_info env s))"
| step_api_call_loop_iteration: "step s (api_call_loop_iteration env s)"
| step_process_control_loop_iteration: "step s (snd (process_control_loop_iteration s))"

inductive reachable :: "HordeWorkerProcessManager \<Rightarrow> HordeWorkerProcessManager \<Rightarrow> bool" where
  reachable_refl: "reachable s s"
| reachable_step: "reachable s s' \<Longrightarrow> step s' s'' \<Longrightarrow> reachable s s''"

text \<open>
  The dispatcher takes a job out of \<open>jobs_in_progress\<close> in one place only, the branch
  of an \<^verbatim>\<open>InferenceResult\<close> message that has an image list, and there it takes out
  the jobs whose id is the id of the message's job. Such a message retires the job.
\<close>

fun retires :: "HordeProcessMessage \<Rightarrow> ImageGenerateJobPopResponse \<Rightarrow> bool" where
  "retires (HordeInferenceResultMessage _ msg_job_info (Some _) _) job =
     (job_id msg_job_info = job_id job)"
| "retires _ job = False"

text \<open>
  The states the manager reaches from a state by steps none of which starts with a
  message that retires the job in the queue: the dispatcher, whenever it runs, finds
  no result with images for the id of the job.
\<close>

inductive later_without_result ::
  "ImageGenerateJobPopResponse \<Rightarrow> HordeWorkerProcessManager \<Rightarrow> HordeWorkerProcessManager \<Rightarrow> bool"
  for job where
  later_refl: "later_without_result job s s"
| later_step:
    "later_without_result job s s' \<Longrightarrow>
     \<forall>message\<in>set (process_message_queue s'). \<not> retires message job \<Longrightarrow>
     step s' s'' \<Longrightarrow> later_without_result job s s''"


subsection \<open>Relations between the state before and after a method\<close>

text \<open>
  \<open>no_growth s s'\<close>: from \<open>s\<close> to \<open>s'\<close> the limit on concurrent jobs is the same, the
  count of popped jobs has not gone down, it has changed by as much as the number of
  jobs in the deque plus the number of completed jobs, and \<open>jobs_in_progress\<close> has
  not become longer. \<open>bounded_growth\<close> allows \<open>jobs_in_progress\<close> to become longer
  within the limit.
\<close>

definition no_growth :: "HordeWorkerProcessManager \<Rightarrow> HordeWorkerProcessManager \<Rightarrow> bool" where
  "no_growth s s' =
     (max_concurrent_inference_processes s' = max_concurrent_inference_processes s
      \<and> testing_jobs_added s \<le> testing_jobs_added s'
      \<and> testing_jobs_added s' - int (length (job_deque s')) - total_num_completed_jobs s'
          = testing_jobs_added s - int (length (job_deque s)) - total_num_completed_jobs s
      \<and> length (jobs_in_progress s') \<le> length (jobs_in_progress s))"

definition bounded_growth :: "HordeWorkerProcessManager \<Rightarrow> HordeWorkerProcessManager \<Rightarrow> bool" where
  "bounded_growth s s' =
     (max_concurrent_inference_processes s' = max_concurrent_inference_processes s
      \<and> testing_jobs_added s \<le> testing_jobs_added s'
      \<and> testing_jobs_added s' - int (length (job_deque s')) - total_num_completed_jobs s'
          = testing_jobs_added s - int (length (job_deque s)) - total_num_completed_jobs s
      \<and> (length (jobs_in_progress s') \<le> length (jobs_in_progress s)
         \<or> int (length (jobs_in_progress s')) \<le> max_concurrent_inference_processes s'))"

subsection \<open>Resident models and load states\<close>




subsection \<open>Example states\<close>

text \<open>
  A small configuration (one safety process, one inference process, one job at a
  time), the manager its constructor returns, and states of a run, used to evaluate
  the methods on concrete inputs.
\<close>

definition example_bridge_data :: reGenBridgeData where
  "example_bridge_data =
     \<lparr>api_key = ''key'', dreamer_worker_name = ''worker'', queue_size = 1,
      image_models_to_load = [''A'', ''B''], nsfw = True, max_power = 8,
      require_upfront_kudos = False, allow_img2img = True, allow_inpainting = True,
      allow_unsafe_ip = False, allow_post_processing = True, allow_controlnet = False\<rparr>"

definition example_manager :: HordeWorkerProcessManager where
  "example_manager =
     \<lparr>bridge_data = example_bridge_data,
      max_inference_processes = 1,
      max_concurrent_inference_processes = 1,
      max_safety_processes = 1,
      max_download_processes = 1,
      total_ram_bytes = 17179869184,
      target_ram_overhead_bytes = 2147483648,
      process_map = [],
      horde_model_map = Map.empty,
      stable_diffusion_reference = Some [''A'' \<mapsto> ''sd1'', ''B'' \<mapsto> ''sd_xl''],
      job_deque = [],
      jobs_in_progress = [],
      jobs_pending_safety_check = [],
      jobs_being_safety_checked = [],
      completed_jobs = [],
      process_message_queue = [],
      total_num_completed_jobs = 0,
      testing_jobs_added = 0,
      job_pop_frequency = 1,
      last_job_pop_time = 0,
      user_info = None,
      user_info_failed = False,
      user_info_failed_reason = None,
      last_get_user_info_time = 0,
      effects = []\<rparr>"

text \<open>Both processes started and waiting for a job.\<close>

definition example_running :: HordeWorkerProcessManager where
  "example_running =
     example_manager
       \<lparr>process_map :=
          [(0, (new_process 0 SAFETY)\<lparr>last_process_state := WAITING_FOR_JOB\<rparr>),
           (1, (new_process 1 INFERENCE)\<lparr>last_process_state := WAITING_FOR_JOB\<rparr>)]\<rparr>"

definition example_job :: ImageGenerateJobPopResponse where
  "example_job =
     \<lparr>job_id = Some ''job-1'', model = Some ''A'',
      payload = \<lparr>prompt = Some ''a cat'', seed = Some ''42'', loras = None, tiling = None,
                 use_nsfw_censor = False\<rparr>,
      r2_upload = Some ''https://r2/job-1''\<rparr>"

definition example_record :: CompletedJobInfo where
  "example_record =
     \<lparr>job_info = example_job, job_result_images_base64 = Some [''image''],
      state = GS_ok, censored = None\<rparr>"

text \<open>The job is in the deque and running on the inference process.\<close>

definition example_inferring :: HordeWorkerProcessManager where
  "example_inferring =
     example_running\<lparr>job_deque := [example_job], jobs_in_progress := [example_job]\<rparr>"

text \<open>The record of the job has been sent to the safety process.\<close>

definition example_checking :: HordeWorkerProcessManager where
  "example_checking = example_running\<lparr>jobs_being_safety_checked := [example_record]\<rparr>"

text \<open>The answers of an outside world in which every call succeeds.\<close>

definition example_env :: api_env where
  "example_env =
     \<lparr>time_user_info_check = 100, time_user_info_set = 100,
      time_pop_check = 100, time_pop_set = 100,
      pop_job = (\<lambda>_. Response example_job),
      write_file_ok = True,
      base64_image_to_stream_buffer = (\<lambda>image_base64. Some (''webp:'' @ image_base64)),
      requests_put = (\<lambda>_ _. Some 200),
      int_of_seed = (\<lambda>text. if text = ''42'' then Some 42 else None),
      submit_job = (\<lambda>_. Response 10),
      find_user = (\<lambda>_. FindUserResponse ''user'')\<rparr>"

text \<open>The job is in the deque and its model is resident on the inference process.\<close>

definition example_loaded :: HordeWorkerProcessManager where
  "example_loaded =
     example_manager
       \<lparr>process_map :=
          [(0, (new_process 0 SAFETY)\<lparr>last_process_state := WAITING_FOR_JOB\<rparr>),
           (1, (new_process 1 INFERENCE)
                 \<lparr>last_process_state := PRELOADED, loaded_horde_model_name := Some ''A''\<rparr>)],
        horde_model_map :=
          [''A'' \<mapsto> \<lparr>horde_model_name = ''A'', horde_model_load_state = LOADED_IN_RAM,
                        model_process_id = 1\<rparr>],
        job_deque := [example_job]\<rparr>"

text \<open>A record that has been checked for safety, at the head of the completed queue.\<close>

definition example_done :: CompletedJobInfo where
  "example_done = example_record\<lparr>censored := Some False\<rparr>"

definition example_completed :: HordeWorkerProcessManager where
  "example_completed = example_running\<lparr>completed_jobs := [example_done]\<rparr>"

text \<open>
  Two other outside worlds: one in which the job pop returns an error response, one
  in which the upload returns the status 204.
\<close>

definition example_env_error :: api_env where
  "example_env_error = example_env\<lparr>pop_job := (\<lambda>_. RequestErrorResponse)\<rparr>"

definition example_env_204 :: api_env where
  "example_env_204 = example_env\<lparr>requests_put := (\<lambda>_ _. Some 204)\<rparr>"


text \<open>
  The process answers the job with a result that has no image list; later the result
  of another job, with an image, arrives and the dispatcher runs.
\<close>

definition example_other_result :: HordeProcessMessage where
  "example_other_result =
     HordeInferenceResultMessage 1 (example_job\<lparr>job_id := Some ''job-2''\<rparr>)
       (Some [''image'']) GS_ok"

definition example_skipped :: HordeWorkerProcessManager where
  "example_skipped =
     snd (handle_message (HordeInferenceResultMessage 1 example_job None GS_faulted)
            example_inferring)"

definition example_later :: HordeWorkerProcessManager where
  "example_later =
     snd (receive_and_handle_process_messages
            (example_skipped\<lparr>process_message_queue :=
               process_message_queue example_skipped @ [example_other_result]\<rparr>))"

section \<open>Properties\<close>

subsection \<open>The dispatcher: inference results\<close>




subsection \<open>The dispatcher: an inference result without images\<close>

text \<open>
  A job in progress stays in progress under every message that does not retire it, and
  so through a whole drain of a queue that holds no such message.
\<close>

lemma with_process_map_jobs:
  "jobs_in_progress (snd (with_process_map r s)) = jobs_in_progress s"
  by (simp add: with_process_map_def split: sum.splits)

lemma handle_message_keeps_job:
  assumes "job \<in> set (jobs_in_progress s)" and "\<not> retires message job"
  shows "job \<in> set (jobs_in_progress (snd (handle_message message s)))"
proof (cases message)
  case (HordeProcessStateChangeMessage pid process_state)
  with assms(1) show ?thesis by (simp add: handle_message_def with_process_map_jobs)
next
  case (HordeModelStateChangeMessage pid name st)
  with assms(1) show ?thesis
    by (simp add: handle_message_def handle_model_state_change_def with_process_map_def Let_def
        split: sum.splits)
next
  case (HordeProcessMemoryMessage pid ram vram vram_total)
  with assms(1) show ?thesis by (simp add: handle_message_def with_process_map_jobs)
next
  case (HordeInferenceResultMessage pid ji imgs st)
  with assms show ?thesis
    by (cases imgs)
       (auto simp: handle_message_def handle_inference_result_def emit_def Let_def
          split: list.splits)
next
  case (HordeSafetyResultMessage pid jid evs)
  with assms(1) show ?thesis
    by (simp add: handle_message_def handle_safety_result_def Let_def
        split: prod.splits option.splits sum.splits)
qed

lemma drain_messages_keeps_job:
  assumes "job \<in> set (jobs_in_progress s)" and "\<forall>message\<in>set ms. \<not> retires message job"
  shows "job \<in> set (jobs_in_progress (snd (drain_messages ms s)))"
  using assms
proof (induction ms arbitrary: s)
  case Nil
  then show ?case by simp
next
  case (Cons m ms)
  let ?s0 = "s\<lparr>process_message_queue := ms\<rparr>"
  have "job \<in> set (jobs_in_progress ?s0)" using Cons.prems(1) by simp
  moreover have "\<not> retires m job" using Cons.prems(2) by simp
  ultimately have one: "job \<in> set (jobs_in_progress (snd (handle_message m ?s0)))"
    by (rule handle_message_keeps_job)
  show ?case
  proof (cases "handle_message m ?s0")
    case (Pair r s1)
    with one have s1: "job \<in> set (jobs_in_progress s1)" by simp
    show ?thesis
    proof (cases r)
      case (Inl e)
      with Pair s1 show ?thesis by simp
    next
      case (Inr u)
      with Pair Cons.IH [OF s1] Cons.prems(2) show ?thesis by simp
    qed
  qed
qed

lemma preload_loop_jobs:
  "jobs_in_progress (snd (preload_loop jobs n s)) = jobs_in_progress s"
proof (induction jobs arbitrary: n)
  case Nil
  show ?case by simp
next
  case (Cons job jobs)
  have "jobs_in_progress (snd (with_process_map r (emit e s\<lparr>horde_model_map := mm\<rparr>)))
          = jobs_in_progress s" for r e mm
    by (simp add: with_process_map_def emit_def split: sum.splits)
  with Cons.IH show ?case
    by (simp add: Let_def emit_def split: option.splits sum.splits)
qed

lemma unload_other_processes_jobs:
  "jobs_in_progress (unload_other_processes ps p s) = jobs_in_progress s"
proof (induction ps arbitrary: s)
  case Nil
  show ?case by simp
next
  case (Cons q ps)
  have "jobs_in_progress (unload_other_processes ps p (emit e1 (emit e2 s))) = jobs_in_progress s"
    for e1 e2
    using Cons.IH [of "emit e1 (emit e2 s)"] by (simp add: emit_def)
  with Cons.IH [of s] show ?case by (simp split: option.splits)
qed

lemma start_inference_jobs:
  "set (jobs_in_progress s) \<subseteq> set (jobs_in_progress (snd (start_inference s)))"
  by (auto simp: start_inference_def Let_def emit_def unload_other_processes_jobs
      split: option.splits)

lemma unload_from_ram_jobs:
  "jobs_in_progress (snd (unload_from_ram pid s)) = jobs_in_progress s"
  by (simp add: unload_from_ram_def with_process_map_def emit_def Let_def
      split: option.splits sum.splits)

lemma unload_loop_jobs:
  "jobs_in_progress (snd (unload_loop ps s)) = jobs_in_progress s"
proof (induction ps arbitrary: s)
  case Nil
  show ?case by simp
next
  case (Cons p ps)
  have "jobs_in_progress (snd (unload_loop ps s')) = jobs_in_progress s"
    if "unload_from_ram (process_id p) s = (r, s')" for r s'
    using unload_from_ram_jobs [of "process_id p" s] Cons.IH [of s'] that by simp
  moreover have "jobs_in_progress s' = jobs_in_progress s"
    if "unload_from_ram (process_id p) s = (r, s')" for r s'
    using unload_from_ram_jobs [of "process_id p" s] that by simp
  ultimately show ?case using Cons.IH [of s]
    by (simp split: option.splits sum.splits prod.splits)
qed

lemma spawn_processes_jobs:
  "jobs_in_progress (spawn_processes n kind s) = jobs_in_progress s"
proof (induction n arbitrary: s)
  case 0
  show ?case by simp
next
  case (Suc n)
  have "jobs_in_progress (spawn_processes n kind ((emit e s)\<lparr>process_map := pm\<rparr>))
          = jobs_in_progress s" for e pm
    using Suc.IH [of "(emit e s)\<lparr>process_map := pm\<rparr>"] by (simp add: emit_def)
  then show ?case by (simp add: Let_def)
qed

lemma end_processes_jobs:
  "jobs_in_progress (snd (end_processes n s)) = jobs_in_progress s"
proof (induction n arbitrary: s)
  case 0
  show ?case by simp
next
  case (Suc n)
  have "jobs_in_progress (snd (end_processes n (emit e s))) = jobs_in_progress s" for e
    using Suc.IH [of "emit e s"] by (simp add: emit_def)
  then show ?case
    by (simp add: Let_def emit_def with_process_map_def ProcessMap_update_entry_def
        split: option.splits)
qed

lemma api_submit_job_jobs:
  "jobs_in_progress (snd (api_submit_job env s)) = jobs_in_progress s"
proof -
  have "jobs_in_progress (submit_try env r images jid sd url c s) = jobs_in_progress s"
    for r images jid sd url c
    by (simp add: submit_try_def log_unexpected_submit_error_def emit_def Let_def
        split: list.splits option.splits api_result.splits)
  then show ?thesis
    by (simp add: api_submit_job_def split: list.splits option.splits)
qed

lemma api_job_pop_jobs:
  "jobs_in_progress (snd (api_job_pop env s)) = jobs_in_progress s"
  by (simp add: api_job_pop_def emit_def Let_def split: api_result.splits option.splits)

lemma other_methods_jobs:
  "jobs_in_progress (snd (start_evaluate_safety s)) = jobs_in_progress s"
  "jobs_in_progress (snd (preload_models s)) = jobs_in_progress s"
  "jobs_in_progress (snd (unload_models s)) = jobs_in_progress s"
  "jobs_in_progress (snd (start_safety_processes s)) = jobs_in_progress s"
  "jobs_in_progress (snd (start_inference_processes s)) = jobs_in_progress s"
  "jobs_in_progress (snd (end_inference_processes s)) = jobs_in_progress s"
  "jobs_in_progress (snd (api_get_user_info env s)) = jobs_in_progress s"
  "jobs_in_progress (api_call_loop_iteration env s) = jobs_in_progress s"
proof -
  show "jobs_in_progress (snd (start_evaluate_safety s)) = jobs_in_progress s"
    by (simp add: start_evaluate_safety_def Let_def emit_def split: list.splits option.splits)
  show "jobs_in_progress (snd (preload_models s)) = jobs_in_progress s"
    by (simp add: preload_models_def preload_loop_jobs)
  show "jobs_in_progress (snd (unload_models s)) = jobs_in_progress s"
    by (simp add: unload_models_def unload_loop_jobs)
  show "jobs_in_progress (snd (start_safety_processes s)) = jobs_in_progress s"
    by (simp add: start_safety_processes_def Let_def emit_def spawn_processes_jobs)
  show "jobs_in_progress (snd (start_inference_processes s)) = jobs_in_progress s"
    by (simp add: start_inference_processes_def Let_def emit_def spawn_processes_jobs)
  show "jobs_in_progress (snd (end_inference_processes s)) = jobs_in_progress s"
    by (simp add: end_inference_processes_def Let_def emit_def end_processes_jobs)
  show "jobs_in_progress (snd (api_get_user_info env s)) = jobs_in_progress s"
    by (simp add: api_get_user_info_def emit_def Let_def split: find_user_result.splits)
  show "jobs_in_progress (api_call_loop_iteration env s) = jobs_in_progress s"
    by (simp add: api_call_loop_iteration_def Let_def emit_def api_submit_job_jobs api_job_pop_jobs)
qed

lemma schedule_jobs:
  "set (jobs_in_progress s) \<subseteq> set (jobs_in_progress (snd (schedule s)))"
proof (cases "is_free_inference_process_available s \<and> length (job_deque s) > 0")
  case False
  then have "schedule s = (Inr (), s)" unfolding schedule_def by (rule if_not_P)
  then show ?thesis by simp
next
  case True
  obtain r1 s1 where 1: "preload_models s = (r1, s1)" by force
  obtain r2 s2 where 2: "start_inference s1 = (r2, s2)" by force
  obtain r3 s3 where 3: "unload_models s2 = (r3, s3)" by force
  have a: "jobs_in_progress s1 = jobs_in_progress s"
    using other_methods_jobs(2) [of s] 1 by simp
  have b: "set (jobs_in_progress s1) \<subseteq> set (jobs_in_progress s2)"
    using start_inference_jobs [of s1] 2 by simp
  have c: "jobs_in_progress s3 = jobs_in_progress s2"
    using other_methods_jobs(3) [of s2] 3 by simp
  have "schedule s = and_then (and_then (preload_models s) start_inference) unload_models"
    unfolding schedule_def using True by (rule if_P)
  then show ?thesis
    using 1 2 3 a b c
    by (cases r1; cases r2) (simp_all add: and_then_def)
qed

lemma process_control_loop_iteration_keeps_job:
  assumes "job \<in> set (jobs_in_progress s)"
    and "\<forall>message\<in>set (process_message_queue s). \<not> retires message job"
  shows "job \<in> set (jobs_in_progress (snd (process_control_loop_iteration s)))"
proof (cases "stable_diffusion_reference s = None")
  case True
  with assms(1) show ?thesis by (simp add: process_control_loop_iteration_def)
next
  case False
  obtain r1 s1 where 1: "receive_and_handle_process_messages s = (r1, s1)" by force
  let ?e = "if length (jobs_pending_safety_check s1) > 0 then start_evaluate_safety s1 else (Inr (), s1)"
  obtain r2 s2 where 2: "?e = (r2, s2)" by force
  obtain r3 s3 where 3: "schedule s2 = (r3, s3)" by force
  have a: "job \<in> set (jobs_in_progress s1)"
    using drain_messages_keeps_job [OF assms] 1
    by (simp add: receive_and_handle_process_messages_def)
  have "jobs_in_progress (snd ?e) = jobs_in_progress s1"
    by (simp add: other_methods_jobs(1))
  with 2 a have b: "job \<in> set (jobs_in_progress s2)" by simp
  have c: "job \<in> set (jobs_in_progress s3)"
    using schedule_jobs [of s2] 3 b by auto
  have d: "job \<in> set (jobs_in_progress (emit (Sleep loop_interval) s3))"
    using c by (simp add: emit_def)
  show ?thesis
    unfolding process_control_loop_iteration_def
    using False 1 2 3 a b c d
    by (cases r1; cases r2; cases r3) (auto simp del: length_greater_0_conv)
qed

lemma step_keeps_job:
  assumes "step s s'" and "job \<in> set (jobs_in_progress s)"
    and "\<forall>message\<in>set (process_message_queue s). \<not> retires message job"
  shows "job \<in> set (jobs_in_progress s')"
  using assms
proof (induction rule: step.induct)
  case (step_dispatch s)
  then show ?case
    using drain_messages_keeps_job [of job s "process_message_queue s"]
    by (simp add: receive_and_handle_process_messages_def)
next
  case (step_start_inference s)
  then show ?case using start_inference_jobs [of s] by auto
next
  case (step_process_control_loop_iteration s)
  then show ?case by (simp add: process_control_loop_iteration_keeps_job)
qed (simp_all add: other_methods_jobs unload_from_ram_jobs api_job_pop_jobs api_submit_job_jobs)

lemma later_keeps_job:
  assumes "later_without_result job s s'" and "job \<in> set (jobs_in_progress s)"
  shows "job \<in> set (jobs_in_progress s')"
  using assms
proof (induction rule: later_without_result.induct)
  case (later_refl s)
  then show ?case by simp
next
  case (later_step s s' s'')
  then show ?case by (blast intro: step_keeps_job)
qed

text \<open>
  Claim C10. An \<^verbatim>\<open>InferenceResult\<close> message without an image list retires nothing:
  \<open>jobs_in_progress\<close>, the deque, \<open>total_num_completed_jobs\<close> and
  \<open>jobs_pending_safety_check\<close> are as before. When its sender is a known process the
  dispatcher returns normally and the only thing it does is log an error. The message
  does not retire any job, and a job that was in progress when it was handled is still
  in progress in every later state of the manager, whatever methods run and whatever
  messages arrive, as long as the dispatcher is given no result with images for the id
  of the job: no other code takes a job out of \<open>jobs_in_progress\<close>. (Its entry in
  the deque is not so protected: the result of another job pops the leftmost entry
  whatever its id.)
\<close>

theorem inference_result_without_images_skipped:
  "jobs_in_progress (snd (handle_message (HordeInferenceResultMessage pid msg_job_info None st) s))
     = jobs_in_progress s
   \<and> job_deque (snd (handle_message (HordeInferenceResultMessage pid msg_job_info None st) s))
     = job_deque s
   \<and> total_num_completed_jobs (snd (handle_message (HordeInferenceResultMessage pid msg_job_info None st) s))
     = total_num_completed_jobs s
   \<and> jobs_pending_safety_check (snd (handle_message (HordeInferenceResultMessage pid msg_job_info None st) s))
     = jobs_pending_safety_check s
   \<and> (pm_contains (process_map s) pid \<longrightarrow>
        handle_message (HordeInferenceResultMessage pid msg_job_info None st) s =
          (Inr (), emit (Log ERROR ''Received an inference result message with a None job_result'') s))
   \<and> \<not> retires (HordeInferenceResultMessage pid msg_job_info None st) job
   \<and> (job \<in> set (jobs_in_progress s)
        \<and> later_without_result job
             (snd (handle_message (HordeInferenceResultMessage pid msg_job_info None st) s)) s'
        \<longrightarrow> job \<in> set (jobs_in_progress s'))"
proof -
  let ?message = "HordeInferenceResultMessage pid msg_job_info None st"
  have now: "jobs_in_progress (snd (handle_message ?message s)) = jobs_in_progress s"
    by (simp add: handle_message_def handle_inference_result_def emit_def)
  have later: "job \<in> set (jobs_in_progress s')"
    if "job \<in> set (jobs_in_progress s)"
      and "later_without_result job (snd (handle_message ?message s)) s'"
    using that(2) that(1) now by (simp add: later_keeps_job)
  have rest:
    "job_deque (snd (handle_message ?message s)) = job_deque s"
    "total_num_completed_jobs (snd (handle_message ?message s)) = total_num_completed_jobs s"
    "jobs_pending_safety_check (snd (handle_message ?message s)) = jobs_pending_safety_check s"
    "pm_contains (process_map s) pid \<longrightarrow>
       handle_message ?message s =
         (Inr (), emit (Log ERROR ''Received an inference result message with a None job_result'') s)"
    "\<not> retires ?message job"
    by (simp_all add: handle_message_def handle_inference_result_def emit_def)
  from now rest later show ?thesis by blast
qed

theorem inference_result_without_images_skipped_witness:
  "pm_contains (process_map example_inferring) 1
   \<and> example_job \<in> set (jobs_in_progress example_inferring)
   \<and> later_without_result example_job example_skipped example_later
   \<and> handle_message (HordeInferenceResultMessage 1 example_job None GS_faulted) example_inferring =
       (Inr (), emit (Log ERROR ''Received an inference result message with a None job_result'')
                  example_inferring)
   \<and> jobs_in_progress example_skipped = [example_job]
   \<and> job_deque example_skipped = [example_job]
   \<and> example_job \<in> set (jobs_in_progress example_later)
   \<and> job_deque example_later = []"
proof -
  let ?message = "HordeInferenceResultMessage 1 example_job None GS_faulted"
  let ?arrived = "example_skipped\<lparr>process_message_queue :=
                    process_message_queue example_skipped @ [example_other_result]\<rparr>"
  note skipped = inference_result_without_images_skipped
    [where pid = 1 and msg_job_info = example_job and st = GS_faulted
       and s = example_inferring and job = example_job and s' = example_later]
  have known: "pm_contains (process_map example_inferring) 1"
    by (simp add: example_inferring_def example_running_def pm_contains_def)
  have in_progress: "example_job \<in> set (jobs_in_progress example_inferring)"
    by (simp add: example_inferring_def)
  from skipped known
  have handled: "handle_message ?message example_inferring =
      (Inr (), emit (Log ERROR ''Received an inference result message with a None job_result'')
                 example_inferring)"
    by blast
  then have state: "example_skipped =
      emit (Log ERROR ''Received an inference result message with a None job_result'')
        example_inferring"
    by (simp add: example_skipped_def)
  have queue: "process_message_queue example_skipped = []"
    unfolding state
    by (simp add: emit_def example_inferring_def example_running_def example_manager_def)
  have first: "\<forall>message\<in>set (process_message_queue example_skipped).
      \<not> retires message example_job"
    by (simp add: queue)
  have arrives: "later_without_result example_job example_skipped ?arrived"
    by (rule later_step [OF later_refl first step_message_arrives])
  have second: "\<forall>message\<in>set (process_message_queue ?arrived).
      \<not> retires message example_job"
    by (simp add: queue example_other_result_def example_job_def)
  have "later_without_result example_job example_skipped
          (snd (receive_and_handle_process_messages ?arrived))"
    by (rule later_step [OF arrives second step_dispatch])
  then have later: "later_without_result example_job example_skipped example_later"
    by (simp only: example_later_def)
  from skipped in_progress later
  have still: "example_job \<in> set (jobs_in_progress example_later)"
    unfolding example_skipped_def by blast
  from skipped have now: "jobs_in_progress example_skipped = [example_job]"
    "job_deque example_skipped = [example_job]"
    unfolding example_skipped_def by (simp_all add: example_inferring_def)
  have popped: "job_deque example_later = []"
    unfolding example_later_def queue state
    by (simp add: receive_and_handle_process_messages_def handle_message_def
        handle_inference_result_def pm_contains_def emit_def example_other_result_def
        example_inferring_def example_running_def example_manager_def Let_def)
  from known in_progress later handled now still popped show ?thesis
    by (intro conjI)
qed


subsection \<open>The dispatcher: safety results\<close>

text \<open>
  The loop over the images returns when every index has an evaluation. It replaces
  exactly the images whose evaluation carries a replacement, counts them, and counts
  among them the ones flagged as CSAM.
\<close>


lemma evaluate_images_result:
  assumes "\<forall>i\<in>set is. i < length evs"
  shows "\<exists>imgs'. evaluate_images is evs (imgs, nc, ncs) =
            Inr (imgs',
                 nc + int (length (filter (\<lambda>i. replacement_image_base64 (evs ! i) \<noteq> None) is)),
                 ncs + int (length (filter (\<lambda>i. replacement_image_base64 (evs ! i) \<noteq> None \<and> is_csam (evs ! i)) is)))
          \<and> length imgs' = length imgs
          \<and> (\<forall>j<length imgs. imgs' ! j =
                (if j \<in> set is
                 then (case replacement_image_base64 (evs ! j) of None \<Rightarrow> imgs ! j | Some x \<Rightarrow> x)
                 else imgs ! j))"
  using assms
proof (induction "is" arbitrary: imgs nc ncs)
  case Nil
  then show ?case by simp
next
  case (Cons i "is")
  have i: "i < length evs" and rest: "\<forall>k\<in>set is. k < length evs"
    using Cons.prems by simp_all
  show ?case
  proof (cases "replacement_image_base64 (evs ! i)")
    case None
    from Cons.IH [OF rest, of imgs nc ncs] obtain imgs' where
      "evaluate_images is evs (imgs, nc, ncs) =
            Inr (imgs',
                 nc + int (length (filter (\<lambda>i. replacement_image_base64 (evs ! i) \<noteq> None) is)),
                 ncs + int (length (filter (\<lambda>i. replacement_image_base64 (evs ! i) \<noteq> None \<and> is_csam (evs ! i)) is)))"
      "length imgs' = length imgs"
      "\<forall>j<length imgs. imgs' ! j =
                (if j \<in> set is
                 then (case replacement_image_base64 (evs ! j) of None \<Rightarrow> imgs ! j | Some x \<Rightarrow> x)
                 else imgs ! j)"
      by blast
    with None i show ?thesis by (intro exI [of _ imgs']) auto
  next
    case (Some x)
    let ?ncs = "if is_csam (evs ! i) then ncs + 1 else ncs"
    from Cons.IH [OF rest, of "imgs[i := x]" "nc + 1" ?ncs] obtain imgs' where
      1: "evaluate_images is evs (imgs[i := x], nc + 1, ?ncs) =
            Inr (imgs',
                 nc + 1 + int (length (filter (\<lambda>i. replacement_image_base64 (evs ! i) \<noteq> None) is)),
                 ?ncs + int (length (filter (\<lambda>i. replacement_image_base64 (evs ! i) \<noteq> None \<and> is_csam (evs ! i)) is)))"
      and 2: "length imgs' = length imgs"
      and 3: "\<forall>j<length imgs. imgs' ! j =
                (if j \<in> set is
                 then (case replacement_image_base64 (evs ! j) of None \<Rightarrow> imgs[i := x] ! j | Some x \<Rightarrow> x)
                 else imgs[i := x] ! j)"
      by auto
    have "imgs' ! j =
            (if j \<in> set (i # is)
             then (case replacement_image_base64 (evs ! j) of None \<Rightarrow> imgs ! j | Some x \<Rightarrow> x)
             else imgs ! j)" if "j < length imgs" for j
    proof (cases "j = i")
      case True
      with that Some 3 show ?thesis by (auto split: option.splits)
    next
      case False
      with that 3 show ?thesis by (auto split: option.splits)
    qed
    with Some i 1 2 show ?thesis
      by (intro exI [of _ imgs']) auto
  qed
qed

lemma find_SomeD: "find P xs = Some x \<Longrightarrow> P x"
  by (induction xs) (auto split: if_splits)

lemma pop_by_job_id_find:
  "pop_by_job_id jid rs =
     (find (\<lambda>r. job_id (job_info r) = Some jid) rs,
      case find (\<lambda>r. job_id (job_info r) = Some jid) rs of None \<Rightarrow> rs | Some r \<Rightarrow> remove1 r rs)"
  by (induction rs) (auto dest: find_SomeD split: option.splits)

lemma filter_upt_pos:
  "(0 < int (length (filter P [0..<n]))) = (\<exists>i<n. P i)"
proof -
  have "(filter P [0..<n] \<noteq> []) = (\<exists>i<n. P i)"
    by (auto simp: filter_empty_conv)
  then show ?thesis by simp
qed

text \<open>
  Claim C1 (amended). A \<^verbatim>\<open>SafetyResult\<close> message of a known process, whose job id is
  that of a record in \<open>jobs_being_safety_checked\<close> (the first such record is taken)
  that has images, with at least one evaluation per image: every image whose
  evaluation supplies a replacement is replaced by it and the others are kept;
  \<open>censored\<close> is true exactly when some image was replaced; the state is CSAM when
  some replaced image is flagged as CSAM, else CENSORED when some image was replaced,
  else the state the record had; the record leaves \<open>jobs_being_safety_checked\<close> and is
  appended to \<open>completed_jobs\<close>. The CSAM flag of an evaluation without a replacement
  image is not read.
\<close>

theorem safety_result_completes_record:
  assumes known: "pm_contains (process_map s) pid"
    and found: "find (\<lambda>r. job_id (job_info r) = Some jid) (jobs_being_safety_checked s) = Some r"
    and imgs: "job_result_images_base64 r = Some images"
    and arity: "length images \<le> length evs"
  shows "\<exists>r' images'.
      handle_message (HordeSafetyResultMessage pid jid evs) s =
        (Inr (), s\<lparr>jobs_being_safety_checked := remove1 r (jobs_being_safety_checked s),
                   completed_jobs := completed_jobs s @ [r']\<rparr>)
    \<and> job_info r' = job_info r
    \<and> job_result_images_base64 r' = Some images'
    \<and> length images' = length images
    \<and> (\<forall>i<length images. images' ! i =
          (case replacement_image_base64 (evs ! i) of None \<Rightarrow> images ! i | Some x \<Rightarrow> x))
    \<and> censored r' = Some (\<exists>i<length images. replacement_image_base64 (evs ! i) \<noteq> None)
    \<and> state r' =
        (if \<exists>i<length images. replacement_image_base64 (evs ! i) \<noteq> None \<and> is_csam (evs ! i)
         then GS_csam
         else if \<exists>i<length images. replacement_image_base64 (evs ! i) \<noteq> None
         then GS_censored
         else state r)"
proof -
  let ?P = "\<lambda>i. replacement_image_base64 (evs ! i) \<noteq> None"
  let ?Q = "\<lambda>i. replacement_image_base64 (evs ! i) \<noteq> None \<and> is_csam (evs ! i)"
  let ?n = "length images"
  have "\<forall>i\<in>set [0..<?n]. i < length evs" using arity by simp
  from evaluate_images_result [OF this, of images 0 0] obtain images' where
    ev0: "evaluate_images [0..<?n] evs (images, 0, 0) =
           Inr (images', int (length (filter ?P [0..<?n])), int (length (filter ?Q [0..<?n])))"
    and len: "length images' = ?n"
    and nth: "\<forall>j<?n. images' ! j =
                (case replacement_image_base64 (evs ! j) of None \<Rightarrow> images ! j | Some x \<Rightarrow> x)"
    by auto
  let ?r1 = "r\<lparr>job_result_images_base64 := Some images'\<rparr>"
  define nc where "nc = int (length (filter ?P [0..<?n]))"
  define ncs where "ncs = int (length (filter ?Q [0..<?n]))"
  have nc: "(0 < nc) = (\<exists>i<?n. ?P i)" unfolding nc_def by (rule filter_upt_pos)
  have ncs: "(0 < ncs) = (\<exists>i<?n. ?Q i)" unfolding ncs_def by (rule filter_upt_pos)
  have ev: "evaluate_images [0..<?n] evs (images, 0, 0) = Inr (images', nc, ncs)"
    using ev0 by (simp only: nc_def ncs_def)
  let ?r2 = "if 0 < nc
             then ?r1\<lparr>censored := Some True, state := (if 0 < ncs then GS_csam else GS_censored)\<rparr>
             else ?r1\<lparr>censored := Some False\<rparr>"
  have "handle_message (HordeSafetyResultMessage pid jid evs) s =
        (Inr (), s\<lparr>jobs_being_safety_checked := remove1 r (jobs_being_safety_checked s),
                   completed_jobs := completed_jobs s @ [?r2]\<rparr>)"
    using known found imgs
    by (simp add: handle_message_def handle_safety_result_def pop_by_job_id_find Let_def
        ev del: upt.simps)
  moreover have "job_info ?r2 = job_info r" by simp
  moreover have "job_result_images_base64 ?r2 = Some images'" by simp
  moreover have "censored ?r2 = Some (\<exists>i<?n. ?P i)" using nc by simp
  moreover have "state ?r2 = (if \<exists>i<?n. ?Q i then GS_csam else if \<exists>i<?n. ?P i then GS_censored else state r)"
    using nc ncs by auto
  ultimately show ?thesis using len nth by blast
qed

theorem safety_result_completes_record_witness:
  "\<exists>r'. handle_message
           (HordeSafetyResultMessage 0 ''job-1''
              [\<lparr>is_nsfw = True, is_csam = True, replacement_image_base64 = Some ''blank''\<rparr>])
           example_checking =
         (Inr (), example_checking\<lparr>jobs_being_safety_checked := [], completed_jobs := [r']\<rparr>)
     \<and> job_info r' = example_job
     \<and> job_result_images_base64 r' = Some [''blank'']
     \<and> censored r' = Some True
     \<and> state r' = GS_csam"
proof -
  let ?evs = "[\<lparr>is_nsfw = True, is_csam = True, replacement_image_base64 = Some ''blank''\<rparr>]"
  have known: "pm_contains (process_map example_checking) 0"
    by (simp add: example_checking_def example_running_def pm_contains_def)
  have found: "find (\<lambda>r. job_id (job_info r) = Some ''job-1'') (jobs_being_safety_checked example_checking)
                 = Some example_record"
    by (simp add: example_checking_def example_record_def example_job_def)
  have imgs: "job_result_images_base64 example_record = Some [''image'']"
    by (simp add: example_record_def)
  have arity: "length [''image''] \<le> length ?evs"
    by simp
  from safety_result_completes_record [OF known found imgs arity]
  obtain r' images' where
    run: "handle_message (HordeSafetyResultMessage 0 ''job-1'' ?evs) example_checking =
            (Inr (), example_checking
               \<lparr>jobs_being_safety_checked := remove1 example_record (jobs_being_safety_checked example_checking),
                completed_jobs := completed_jobs example_checking @ [r']\<rparr>)"
    and info: "job_info r' = job_info example_record"
    and images: "job_result_images_base64 r' = Some images'" "length images' = length [''image'']"
      "\<forall>i<length [''image'']. images' ! i =
          (case replacement_image_base64 (?evs ! i) of None \<Rightarrow> [''image''] ! i | Some x \<Rightarrow> x)"
    and cens: "censored r' = Some (\<exists>i<length [''image'']. replacement_image_base64 (?evs ! i) \<noteq> None)"
    and st: "state r' =
        (if \<exists>i<length [''image'']. replacement_image_base64 (?evs ! i) \<noteq> None \<and> is_csam (?evs ! i)
         then GS_csam
         else if \<exists>i<length [''image'']. replacement_image_base64 (?evs ! i) \<noteq> None
         then GS_censored
         else state example_record)"
    by blast
  have "images' = [''blank'']"
    using images by (cases images') simp_all
  moreover have "completed_jobs example_checking = []"
    by (simp add: example_checking_def example_running_def example_manager_def)
  moreover have "remove1 example_record (jobs_being_safety_checked example_checking) = []"
    by (simp add: example_checking_def)
  moreover have "job_info example_record = example_job"
    by (simp add: example_record_def)
  ultimately show ?thesis
    using run info images(1) cens st by (intro exI [of _ r']) simp
qed

text \<open>
  The claim as first stated sets the state to CSAM whenever an image is CSAM. An
  evaluation that flags the only image as CSAM and supplies no replacement leaves the
  record with the state it had and with \<open>censored\<close> false.
\<close>

theorem safety_result_csam_without_replacement:
  "handle_message
     (HordeSafetyResultMessage 0 ''job-1''
        [\<lparr>is_nsfw = True, is_csam = True, replacement_image_base64 = None\<rparr>])
     example_checking =
   (Inr (), example_checking
      \<lparr>jobs_being_safety_checked := [],
       completed_jobs := [example_record\<lparr>censored := Some False\<rparr>]\<rparr>)
   \<and> state (example_record\<lparr>censored := Some False\<rparr>) = GS_ok"
  by (simp add: handle_message_def handle_safety_result_def example_checking_def
      example_running_def example_manager_def example_record_def example_job_def
      pm_contains_def Let_def)

subsection \<open>What no method does to the jobs in progress and to the job counter\<close>


lemma no_growth_refl: "no_growth s s"
  by (simp add: no_growth_def)

lemma no_growth_trans: "no_growth s s' \<Longrightarrow> no_growth s' s'' \<Longrightarrow> no_growth s s''"
  by (auto simp: no_growth_def)

lemma no_growth_bounded: "no_growth s s' \<Longrightarrow> bounded_growth s s'"
  by (simp add: no_growth_def bounded_growth_def)

lemma bounded_growth_refl: "bounded_growth s s"
  by (simp add: bounded_growth_def)

lemma bounded_growth_trans: "bounded_growth s s' \<Longrightarrow> bounded_growth s' s'' \<Longrightarrow> bounded_growth s s''"
  by (auto simp: bounded_growth_def)

lemma no_growth_emit: "no_growth s (emit e s)"
  by (simp add: no_growth_def emit_def)

lemma no_growth_with_process_map: "no_growth s (snd (with_process_map r s))"
  by (simp add: no_growth_def with_process_map_def split: sum.splits)

lemma no_growth_handle_safety_result: "no_growth s (snd (handle_safety_result jid evs s))"
  by (simp add: no_growth_def handle_safety_result_def Let_def split: prod.splits option.splits sum.splits)

lemma no_growth_handle_inference_result: "no_growth s (snd (handle_inference_result ji imgs st s))"
  by (simp add: no_growth_def handle_inference_result_def Let_def emit_def split: option.splits list.splits)

lemma no_growth_handle_model_state_change: "no_growth s (snd (handle_model_state_change pid name st s))"
  by (simp add: no_growth_def handle_model_state_change_def with_process_map_def Let_def split: sum.splits)

lemma no_growth_handle_message: "no_growth s (snd (handle_message m s))"
  by (simp add: handle_message_def no_growth_refl no_growth_with_process_map
      no_growth_handle_safety_result no_growth_handle_inference_result
      no_growth_handle_model_state_change split: HordeProcessMessage.splits)

lemma no_growth_drain_messages: "no_growth s (snd (drain_messages ms s))"
proof (induction ms arbitrary: s)
  case Nil
  show ?case by (simp add: no_growth_refl)
next
  case (Cons m ms)
  let ?s0 = "s\<lparr>process_message_queue := ms\<rparr>"
  have a: "no_growth s ?s0" by (simp add: no_growth_def)
  have b: "no_growth ?s0 (snd (handle_message m ?s0))" by (rule no_growth_handle_message)
  show ?case
  proof (cases "handle_message m ?s0")
    case (Pair r s1)
    with a b have s1: "no_growth s s1" by (auto intro: no_growth_trans)
    show ?thesis
    proof (cases r)
      case (Inl e)
      with Pair s1 show ?thesis by simp
    next
      case (Inr u)
      with Pair s1 Cons.IH [of s1] show ?thesis by (auto intro: no_growth_trans)
    qed
  qed
qed

lemma no_growth_receive: "no_growth s (snd (receive_and_handle_process_messages s))"
  by (simp add: receive_and_handle_process_messages_def no_growth_drain_messages)

lemma no_growth_start_evaluate_safety: "no_growth s (snd (start_evaluate_safety s))"
  by (simp add: no_growth_def start_evaluate_safety_def Let_def emit_def split: list.splits option.splits)


lemma no_growth_preload_loop: "no_growth s (snd (preload_loop jobs n s))"
proof (induction jobs arbitrary: n)
  case Nil
  show ?case by (simp add: no_growth_refl)
next
  case (Cons job jobs)
  have "no_growth s
          (snd (with_process_map r
                  (emit e s\<lparr>horde_model_map := mm\<rparr>)))" for r e mm
    by (simp add: no_growth_def with_process_map_def emit_def split: sum.splits)
  with Cons.IH show ?case
    by (simp add: Let_def no_growth_refl no_growth_emit split: option.splits sum.splits)
qed

lemma no_growth_preload_models: "no_growth s (snd (preload_models s))"
  by (simp add: preload_models_def no_growth_preload_loop)

lemma no_growth_unload_other_processes: "no_growth s (unload_other_processes ps p s)"
proof (induction ps arbitrary: s)
  case Nil
  show ?case by (simp add: no_growth_refl)
next
  case (Cons q ps)
  have "no_growth s (unload_other_processes ps p (emit e1 (emit e2 s)))" for e1 e2
    using Cons.IH [of "emit e1 (emit e2 s)"]
    by (simp add: no_growth_def emit_def)
  with Cons.IH show ?case
    by (simp split: option.splits)
qed

lemma bounded_growth_start_inference: "bounded_growth s (snd (start_inference s))"
proof -
  have "bounded_growth s
          (emit e ((unload_other_processes ps p s)
                     \<lparr>jobs_in_progress := jobs_in_progress (unload_other_processes ps p s) @ [job]\<rparr>))"
    if "int (length (jobs_in_progress s)) < max_concurrent_inference_processes s" for e ps p job
    using that no_growth_unload_other_processes [of s ps p]
    by (simp add: bounded_growth_def no_growth_def emit_def)
  then show ?thesis
    by (simp add: start_inference_def Let_def bounded_growth_refl no_growth_emit no_growth_bounded
        split: option.splits)
qed

lemma no_growth_unload_from_ram: "no_growth s (snd (unload_from_ram pid s))"
  by (simp add: no_growth_def unload_from_ram_def with_process_map_def emit_def Let_def
      split: option.splits sum.splits)

lemma no_growth_unload_loop: "no_growth s (snd (unload_loop ps s))"
proof (induction ps arbitrary: s)
  case Nil
  show ?case by (simp add: no_growth_refl)
next
  case (Cons p ps)
  have "no_growth s (snd (unload_loop ps s'))" if "unload_from_ram (process_id p) s = (r, s')" for r s'
    using no_growth_unload_from_ram [of s "process_id p"] Cons.IH [of s'] that
    by (auto intro: no_growth_trans)
  moreover have "no_growth s s'" if "unload_from_ram (process_id p) s = (r, s')" for r s'
    using no_growth_unload_from_ram [of s "process_id p"] that by simp
  ultimately show ?case using Cons.IH [of s]
    by (simp add: no_growth_refl split: option.splits sum.splits prod.splits)
qed

lemma no_growth_unload_models: "no_growth s (snd (unload_models s))"
  by (simp add: unload_models_def no_growth_unload_loop)

lemma no_growth_spawn_processes: "no_growth s (spawn_processes n kind s)"
proof (induction n arbitrary: s)
  case 0
  show ?case by (simp add: no_growth_refl)
next
  case (Suc n)
  have "no_growth s (spawn_processes n kind ((emit e s)\<lparr>process_map := pm\<rparr>))" for e pm
    using Suc.IH [of "(emit e s)\<lparr>process_map := pm\<rparr>"]
    by (simp add: no_growth_def emit_def)
  then show ?case by (simp add: Let_def)
qed

lemma no_growth_start_safety_processes: "no_growth s (snd (start_safety_processes s))"
  by (simp add: start_safety_processes_def Let_def no_growth_emit no_growth_spawn_processes)

lemma no_growth_start_inference_processes: "no_growth s (snd (start_inference_processes s))"
  by (simp add: start_inference_processes_def Let_def no_growth_emit no_growth_spawn_processes)

lemma no_growth_end_processes: "no_growth s (snd (end_processes n s))"
proof (induction n arbitrary: s)
  case 0
  show ?case by (simp add: no_growth_refl)
next
  case (Suc n)
  have "no_growth s (snd (end_processes n (emit e s)))" for e
    using Suc.IH [of "emit e s"] no_growth_emit [of s e] by (auto intro: no_growth_trans)
  then show ?case
    by (simp add: Let_def no_growth_emit with_process_map_def ProcessMap_update_entry_def
        split: option.splits)
qed

lemma no_growth_end_inference_processes: "no_growth s (snd (end_inference_processes s))"
  by (simp add: end_inference_processes_def Let_def no_growth_emit no_growth_end_processes)

lemma no_growth_submit_try: "no_growth s (submit_try env r images jid sd url c s)"
  by (simp add: no_growth_def submit_try_def log_unexpected_submit_error_def emit_def Let_def
      split: list.splits option.splits api_result.splits)

lemma no_growth_api_submit_job: "no_growth s (snd (api_submit_job env s))"
  by (simp add: api_submit_job_def no_growth_refl no_growth_submit_try
      split: list.splits option.splits)

lemma no_growth_api_job_pop: "no_growth s (snd (api_job_pop env s))"
  by (simp add: no_growth_def api_job_pop_def emit_def Let_def
      split: api_result.splits option.splits)

lemma no_growth_api_get_user_info: "no_growth s (snd (api_get_user_info env s))"
  by (simp add: no_growth_def api_get_user_info_def emit_def Let_def
      split: find_user_result.splits)




lemma no_growth_api_call_loop_iteration: "no_growth s (api_call_loop_iteration env s)"
proof -
  let ?s1 = "if user_info_failed s then emit (Sleep 5) s else s"
  let ?s2 = "if last_get_user_info_time ?s1 + api_get_user_info_interval < time_user_info_check env
             then ?s1\<lparr>last_get_user_info_time := time_user_info_set env\<rparr> else ?s1"
  let ?s3 = "snd (api_job_pop env ?s2)"
  let ?s4 = "snd (api_submit_job env ?s3)"
  let ?s5 = "if user_info_failed ?s4
             then emit (Log ERROR ''The server failed to respond. Is the horde or your internet down?'') ?s4
             else ?s4"
  have 1: "no_growth s ?s2" by (simp add: no_growth_def emit_def)
  have 2: "no_growth ?s2 ?s3" by (rule no_growth_api_job_pop)
  have 3: "no_growth ?s3 ?s4" by (rule no_growth_api_submit_job)
  have 4: "no_growth ?s4 (emit (Sleep api_call_loop_interval) ?s5)" by (simp add: no_growth_def emit_def)
  have eq: "api_call_loop_iteration env s = emit (Sleep api_call_loop_interval) ?s5"
    by (simp add: api_call_loop_iteration_def Let_def)
  have "no_growth s (emit (Sleep api_call_loop_interval) ?s5)"
    by (rule no_growth_trans [OF no_growth_trans [OF no_growth_trans [OF 1 2] 3] 4])
  then show ?thesis by (simp only: eq)
qed

lemma bounded_growth_and_then:
  assumes "bounded_growth s (snd r)" and "\<And>s'. bounded_growth s' (snd (f s'))"
  shows "bounded_growth s (snd (and_then r f))"
proof (cases r)
  case (Pair x s1)
  with assms(1) assms(2) [of s1] show ?thesis
    by (cases x) (auto simp: and_then_def intro: bounded_growth_trans)
qed

lemma bounded_growth_schedule: "bounded_growth s (snd (schedule s))"
  by (simp add: schedule_def bounded_growth_refl bounded_growth_and_then
      no_growth_preload_models no_growth_unload_models no_growth_bounded
      bounded_growth_start_inference)

lemma bounded_growth_after_dispatch:
  "bounded_growth s1
     (snd (case (if length (jobs_pending_safety_check s1) > 0 then start_evaluate_safety s1
                 else (Inr (), s1)) of
             (Inl e, s2) \<Rightarrow> (Inl e, s2)
           | (Inr _, s2) \<Rightarrow>
               if is_time_for_shutdown s2 then (Inr False, s2)
               else (case schedule s2 of
                       (Inl e, s3) \<Rightarrow> (Inl e, s3)
                     | (Inr _, s3) \<Rightarrow> (Inr True, emit (Sleep loop_interval) s3))))"
proof -
  let ?e = "if length (jobs_pending_safety_check s1) > 0 then start_evaluate_safety s1 else (Inr (), s1)"
  obtain r2 s2 where 2: "?e = (r2, s2)" by force
  obtain r3 s3 where 3: "schedule s2 = (r3, s3)" by force
  have "no_growth s1 (snd ?e)"
    by (simp add: no_growth_refl no_growth_start_evaluate_safety)
  with 2 have b: "bounded_growth s1 s2" by (simp add: no_growth_bounded)
  have c: "bounded_growth s2 s3"
    using bounded_growth_schedule [of s2] 3 by simp
  have d: "bounded_growth s3 (emit (Sleep loop_interval) s3)"
    by (simp add: no_growth_bounded no_growth_emit)
  from b c have bc: "bounded_growth s1 s3" by (rule bounded_growth_trans)
  from bc d have bcd: "bounded_growth s1 (emit (Sleep loop_interval) s3)" by (rule bounded_growth_trans)
  show ?thesis
    unfolding 2 using 3 b bc bcd
    by (cases r2; cases r3) simp_all
qed

lemma bounded_growth_process_control_loop_iteration:
  "bounded_growth s (snd (process_control_loop_iteration s))"
proof -
  obtain r1 s1 where 1: "receive_and_handle_process_messages s = (r1, s1)" by force
  have a: "bounded_growth s s1"
    using no_growth_receive [of s] 1 by (simp add: no_growth_bounded)
  show ?thesis
  proof (cases "stable_diffusion_reference s = None")
    case True
    then show ?thesis by (simp add: process_control_loop_iteration_def bounded_growth_refl)
  next
    case False
    show ?thesis
    proof (cases r1)
      case (Inl e)
      with False 1 a show ?thesis by (auto simp: process_control_loop_iteration_def)
    next
      case (Inr u)
      with False 1 bounded_growth_trans [OF a bounded_growth_after_dispatch [of s1]]
      show ?thesis by (auto simp: process_control_loop_iteration_def)
    qed
  qed
qed

lemma step_bounded_growth: "step s s' \<Longrightarrow> bounded_growth s s'"
proof (induction rule: step.induct)
  case (step_message_arrives s message)
  show ?case by (simp add: bounded_growth_def)
next
  case (step_dispatch s)
  show ?case by (rule no_growth_bounded [OF no_growth_receive])
next
  case (step_start_evaluate_safety s)
  show ?case by (rule no_growth_bounded [OF no_growth_start_evaluate_safety])
next
  case (step_preload_models s)
  show ?case by (rule no_growth_bounded [OF no_growth_preload_models])
next
  case (step_start_inference s)
  show ?case by (rule bounded_growth_start_inference)
next
  case (step_unload_models s)
  show ?case by (rule no_growth_bounded [OF no_growth_unload_models])
next
  case (step_unload_from_ram s pid)
  show ?case by (rule no_growth_bounded [OF no_growth_unload_from_ram])
next
  case (step_start_safety_processes s)
  show ?case by (rule no_growth_bounded [OF no_growth_start_safety_processes])
next
  case (step_start_inference_processes s)
  show ?case by (rule no_growth_bounded [OF no_growth_start_inference_processes])
next
  case (step_end_inference_processes s)
  show ?case by (rule no_growth_bounded [OF no_growth_end_inference_processes])
next
  case (step_api_job_pop s env)
  show ?case by (rule no_growth_bounded [OF no_growth_api_job_pop])
next
  case (step_api_submit_job s env)
  show ?case by (rule no_growth_bounded [OF no_growth_api_submit_job])
next
  case (step_api_get_user_info s env)
  show ?case by (rule no_growth_bounded [OF no_growth_api_get_user_info])
next
  case (step_api_call_loop_iteration s env)
  show ?case by (rule no_growth_bounded [OF no_growth_api_call_loop_iteration])
next
  case (step_process_control_loop_iteration s)
  show ?case by (rule bounded_growth_process_control_loop_iteration)
qed

lemma reachable_bounded_growth: "reachable s s' \<Longrightarrow> bounded_growth s s'"
proof (induction rule: reachable.induct)
  case (reachable_refl s)
  show ?case by (rule bounded_growth_refl)
next
  case (reachable_step s s' s'')
  then show ?case by (blast intro: bounded_growth_trans step_bounded_growth)
qed


subsection \<open>The limit on the jobs in progress and the lifetime cap of the job pop\<close>


text \<open>
  Claim C5. In every state the manager reaches from the one its constructor returns,
  \<open>jobs_in_progress\<close> holds at most \<open>max_concurrent_inference_processes\<close> jobs; every
  step preserves this bound; \<open>start_inference\<close> does nothing when the list is already
  that long; and the dispatcher, \<open>start_evaluate_safety\<close>, \<open>preload_models\<close>,
  \<open>unload_models\<close>, \<open>api_job_pop\<close> and \<open>api_submit_job\<close> never make the list longer.
\<close>

theorem jobs_in_progress_within_limit:
  "(init bd total_ram ram_overhead max_inference max_safety max_download max_concurrent reference = Inr s0
      \<and> reachable s0 s
    \<longrightarrow> int (length (jobs_in_progress s)) \<le> max_concurrent_inference_processes s)
   \<and> (int (length (jobs_in_progress t)) \<le> max_concurrent_inference_processes t \<and> step t t'
    \<longrightarrow> int (length (jobs_in_progress t')) \<le> max_concurrent_inference_processes t')
   \<and> (max_concurrent_inference_processes u \<le> int (length (jobs_in_progress u))
    \<longrightarrow> start_inference u = (Inr (), u))
   \<and> length (jobs_in_progress (snd (receive_and_handle_process_messages u))) \<le> length (jobs_in_progress u)
   \<and> length (jobs_in_progress (snd (start_evaluate_safety u))) \<le> length (jobs_in_progress u)
   \<and> length (jobs_in_progress (snd (preload_models u))) \<le> length (jobs_in_progress u)
   \<and> length (jobs_in_progress (snd (unload_models u))) \<le> length (jobs_in_progress u)
   \<and> length (jobs_in_progress (snd (api_job_pop env u))) \<le> length (jobs_in_progress u)
   \<and> length (jobs_in_progress (snd (api_submit_job env u))) \<le> length (jobs_in_progress u)"
proof -
  have 1: "int (length (jobs_in_progress s)) \<le> max_concurrent_inference_processes s"
    if i: "init bd total_ram ram_overhead max_inference max_safety max_download max_concurrent reference = Inr s0"
    and r: "reachable s0 s"
  proof -
    from i have "jobs_in_progress s0 = []" "0 \<le> max_concurrent_inference_processes s0"
      by (auto simp: init_def split: if_splits)
    with reachable_bounded_growth [OF r] show ?thesis
      by (auto simp: bounded_growth_def)
  qed
  have 2: "int (length (jobs_in_progress t')) \<le> max_concurrent_inference_processes t'"
    if "int (length (jobs_in_progress t)) \<le> max_concurrent_inference_processes t" "step t t'"
    using step_bounded_growth [OF that(2)] that(1) by (auto simp: bounded_growth_def)
  have 3: "start_inference u = (Inr (), u)"
    if "max_concurrent_inference_processes u \<le> int (length (jobs_in_progress u))"
    using that by (simp add: start_inference_def)
  show ?thesis
    using 1 2 3 no_growth_receive [of u] no_growth_start_evaluate_safety [of u]
      no_growth_preload_models [of u] no_growth_unload_models [of u]
      no_growth_api_job_pop [of u env] no_growth_api_submit_job [of u env]
    by (simp add: no_growth_def)
qed

theorem jobs_in_progress_within_limit_witness:
  "init example_bridge_data 17179869184 2147483648 1 1 1 1 [''A'' \<mapsto> ''sd1'', ''B'' \<mapsto> ''sd_xl'']
     = Inr example_manager
   \<and> reachable example_manager (snd (start_safety_processes example_manager))
   \<and> int (length (jobs_in_progress (snd (start_safety_processes example_manager))))
       \<le> max_concurrent_inference_processes (snd (start_safety_processes example_manager))
   \<and> int (length (jobs_in_progress example_loaded)) \<le> max_concurrent_inference_processes example_loaded
   \<and> step example_loaded (snd (start_inference example_loaded))
   \<and> jobs_in_progress (snd (start_inference example_loaded)) = [example_job]
   \<and> int (length (jobs_in_progress (snd (start_inference example_loaded))))
       \<le> max_concurrent_inference_processes (snd (start_inference example_loaded))
   \<and> start_inference (snd (start_inference example_loaded)) = (Inr (), snd (start_inference example_loaded))"
proof -
  let ?s1 = "snd (start_safety_processes example_manager)"
  let ?t' = "snd (start_inference example_loaded)"
  have i: "init example_bridge_data 17179869184 2147483648 1 1 1 1 [''A'' \<mapsto> ''sd1'', ''B'' \<mapsto> ''sd_xl'']
             = Inr example_manager"
    by (simp add: init_def example_manager_def)
  have r: "reachable example_manager ?s1"
    by (rule reachable_step [OF reachable_refl step_start_safety_processes])
  have b: "int (length (jobs_in_progress example_loaded)) \<le> max_concurrent_inference_processes example_loaded"
    by (simp add: example_loaded_def example_manager_def)
  have st: "step example_loaded ?t'"
    by (rule step_start_inference)
  have run: "jobs_in_progress ?t' = [example_job]" "max_concurrent_inference_processes ?t' = 1"
    by (simp_all add: start_inference_def example_loaded_def example_manager_def example_job_def
        is_model_loaded_def is_loaded_def get_process_by_horde_model_name_def pm_values_def
        new_process_def can_accept_job_def state_can_accept_job_def is_process_busy_def
        emit_def Let_def)
  have full: "max_concurrent_inference_processes ?t' \<le> int (length (jobs_in_progress ?t'))"
    using run by simp
  from jobs_in_progress_within_limit
         [of example_bridge_data 17179869184 2147483648 1 1 1 1 "[''A'' \<mapsto> ''sd1'', ''B'' \<mapsto> ''sd_xl'']"
            example_manager ?s1 example_loaded ?t' ?t' example_env]
  show ?thesis
    using i r b st run full by simp
qed

text \<open>
  Claim C9. In every state the manager reaches from the one its constructor returns,
  \<open>testing_jobs_added\<close> is the number of jobs appended to the deque so far: those still
  in the deque and those an inference result has retired. Once it has reached 10000,
  every later call of \<open>api_job_pop\<close>, in any state the manager reaches from there,
  returns at once: no request is issued and no attribute changes.
\<close>

theorem job_pop_lifetime_cap:
  "(init bd total_ram ram_overhead max_inference max_safety max_download max_concurrent reference = Inr s0
      \<and> reachable s0 s
    \<longrightarrow> testing_jobs_added s = int (length (job_deque s)) + total_num_completed_jobs s)
   \<and> (10000 \<le> testing_jobs_added s \<and> reachable s s'
    \<longrightarrow> api_job_pop env s' = (Inr (), s'))"
proof -
  have counted: "testing_jobs_added s = int (length (job_deque s)) + total_num_completed_jobs s"
    if i: "init bd total_ram ram_overhead max_inference max_safety max_download max_concurrent reference = Inr s0"
    and r: "reachable s0 s"
  proof -
    from i have "testing_jobs_added s0 = 0" "job_deque s0 = []" "total_num_completed_jobs s0 = 0"
      by (auto simp: init_def split: if_splits)
    with reachable_bounded_growth [OF r] show ?thesis
      by (simp add: bounded_growth_def)
  qed
  have capped: "api_job_pop env s' = (Inr (), s')"
    if c: "10000 \<le> testing_jobs_added s" and r: "reachable s s'"
  proof -
    from reachable_bounded_growth [OF r] c
    have "testing_max_jobs \<le> testing_jobs_added s'"
      by (simp add: bounded_growth_def testing_max_jobs_def)
    then show ?thesis
      by (simp add: api_job_pop_def)
  qed
  from counted capped show ?thesis by blast
qed

theorem job_pop_lifetime_cap_witness:
  "init example_bridge_data 17179869184 2147483648 1 1 1 1 [''A'' \<mapsto> ''sd1'', ''B'' \<mapsto> ''sd_xl'']
     = Inr example_manager
   \<and> reachable example_manager (snd (api_job_pop example_env example_manager))
   \<and> job_deque (snd (api_job_pop example_env example_manager)) = [example_job]
   \<and> testing_jobs_added (snd (api_job_pop example_env example_manager)) = 1
   \<and> 10000 \<le> testing_jobs_added (example_running\<lparr>testing_jobs_added := 10000\<rparr>)
   \<and> reachable (example_running\<lparr>testing_jobs_added := 10000\<rparr>)
        (snd (api_submit_job example_env (example_running\<lparr>testing_jobs_added := 10000\<rparr>)))
   \<and> api_job_pop example_env (snd (api_submit_job example_env (example_running\<lparr>testing_jobs_added := 10000\<rparr>)))
        = (Inr (), snd (api_submit_job example_env (example_running\<lparr>testing_jobs_added := 10000\<rparr>)))"
proof -
  let ?s = "example_running\<lparr>testing_jobs_added := 10000\<rparr>"
  let ?p = "snd (api_job_pop example_env example_manager)"
  have i: "init example_bridge_data 17179869184 2147483648 1 1 1 1 [''A'' \<mapsto> ''sd1'', ''B'' \<mapsto> ''sd_xl'']
             = Inr example_manager"
    by (simp add: init_def example_manager_def)
  have rp: "reachable example_manager ?p"
    by (rule reachable_step [OF reachable_refl step_api_job_pop])
  have popped: "job_deque ?p = [example_job]" "total_num_completed_jobs ?p = 0"
    by (simp_all add: api_job_pop_def example_manager_def example_bridge_data_def example_env_def
        example_job_def testing_max_jobs_def emit_def Let_def)
  have cap: "10000 \<le> testing_jobs_added ?s" by simp
  have r: "reachable ?s (snd (api_submit_job example_env ?s))"
    by (rule reachable_step [OF reachable_refl step_api_submit_job])
  have counted: "testing_jobs_added ?p = int (length (job_deque ?p)) + total_num_completed_jobs ?p"
    using job_pop_lifetime_cap
         [of example_bridge_data 17179869184 2147483648 1 1 1 1 "[''A'' \<mapsto> ''sd1'', ''B'' \<mapsto> ''sd_xl'']"
            example_manager ?p ?p example_env] i rp
    by blast
  have capped: "api_job_pop example_env (snd (api_submit_job example_env ?s))
                  = (Inr (), snd (api_submit_job example_env ?s))"
    using job_pop_lifetime_cap
         [of example_bridge_data 17179869184 2147483648 1 1 1 1 "[''A'' \<mapsto> ''sd1'', ''B'' \<mapsto> ''sd_xl'']"
            example_manager ?s "snd (api_submit_job example_env ?s)" example_env] cap r
    by blast
  from counted popped have "testing_jobs_added ?p = 1" by simp
  with i rp popped(1) cap r capped show ?thesis by (intro conjI)
qed

subsection \<open>The job pop\<close>

text \<open>
  Claim C6. A call of \<open>api_job_pop\<close> returns at once, with nothing changed and no
  request issued, unless the deque holds fewer than \<open>queue_size + 1\<close> jobs and at least
  \<open>job_pop_frequency\<close> seconds have passed since the last attempt. When it does attempt
  a pop (the lifetime cap of 10000 jobs not being reached) it issues the request and
  records the time of the attempt. After a failed attempt (error response or
  exception) the interval is 5 seconds and the deque is as before, so a call less than
  5 seconds after the recorded time returns at once. After any response that is not
  an error the interval is 1 second; a response with a job id is appended to the
  deque (and counted), a response without one leaves the deque as it is.
\<close>

theorem api_job_pop_interval:
  assumes run: "api_job_pop env s = (r, s')"
  shows
   "(\<not> (int (length (job_deque s)) < queue_size (bridge_data s) + 1
         \<and> job_pop_frequency s \<le> time_pop_check env - last_job_pop_time s)
       \<longrightarrow> r = Inr () \<and> s' = s)
    \<and> (int (length (job_deque s)) < queue_size (bridge_data s) + 1
         \<and> testing_jobs_added s < 10000
         \<and> job_pop_frequency s \<le> time_pop_check env - last_job_pop_time s
       \<longrightarrow> JobPop (job_pop_request s) \<in> set (effects s')
           \<and> last_job_pop_time s' = time_pop_set env
           \<and> (pop_job env (job_pop_request s) = Raised
                \<or> pop_job env (job_pop_request s) = RequestErrorResponse
              \<longrightarrow> job_pop_frequency s' = 5
                  \<and> job_deque s' = job_deque s
                  \<and> (time_pop_check env' - time_pop_set env < 5
                       \<longrightarrow> api_job_pop env' s' = (Inr (), s')))
           \<and> (pop_job env (job_pop_request s) = Response job_pop_response
              \<longrightarrow> job_pop_frequency s' = 1
                  \<and> (job_id job_pop_response = Some jid
                       \<longrightarrow> job_deque s' = job_deque s @ [job_pop_response]
                           \<and> testing_jobs_added s' = testing_jobs_added s + 1)
                  \<and> (job_id job_pop_response = None \<longrightarrow> job_deque s' = job_deque s)))"
proof -
  have skip: "r = Inr () \<and> s' = s"
    if "\<not> (int (length (job_deque s)) < queue_size (bridge_data s) + 1
            \<and> job_pop_frequency s \<le> time_pop_check env - last_job_pop_time s)"
    using that run by (auto simp: api_job_pop_def not_le not_less split: if_splits)
  have req: "job_pop_request (s\<lparr>last_job_pop_time := t\<rparr>) = job_pop_request s" for t
    by (simp add: job_pop_request_def)
  have attempt:
    "JobPop (job_pop_request s) \<in> set (effects s')
     \<and> last_job_pop_time s' = time_pop_set env
     \<and> (pop_job env (job_pop_request s) = Raised
          \<or> pop_job env (job_pop_request s) = RequestErrorResponse
        \<longrightarrow> job_pop_frequency s' = 5
            \<and> job_deque s' = job_deque s
            \<and> (time_pop_check env' - time_pop_set env < 5
                 \<longrightarrow> api_job_pop env' s' = (Inr (), s')))
     \<and> (pop_job env (job_pop_request s) = Response job_pop_response
        \<longrightarrow> job_pop_frequency s' = 1
            \<and> (job_id job_pop_response = Some jid
                 \<longrightarrow> job_deque s' = job_deque s @ [job_pop_response]
                     \<and> testing_jobs_added s' = testing_jobs_added s + 1)
            \<and> (job_id job_pop_response = None \<longrightarrow> job_deque s' = job_deque s))"
    if a0: "int (length (job_deque s)) < queue_size (bridge_data s) + 1"
      and b0: "testing_jobs_added s < 10000"
      and c0: "job_pop_frequency s \<le> time_pop_check env - last_job_pop_time s"
  proof -
    have a: "\<not> queue_size (bridge_data s) + 1 \<le> int (length (job_deque s))"
      using a0 by simp
    have b: "\<not> testing_max_jobs \<le> testing_jobs_added s"
      using b0 by (simp add: testing_max_jobs_def)
    have c: "\<not> time_pop_check env - last_job_pop_time s < job_pop_frequency s"
      using c0 by simp
    let ?s2 = "emit (JobPop (job_pop_request s)) (s\<lparr>last_job_pop_time := time_pop_set env\<rparr>)"
    show ?thesis
    proof (cases "pop_job env (job_pop_request s)")
      case Raised
      with a b c run have
        "s' = (emit (Log ERROR ''Failed to pop job (Unexpected Error)'') ?s2)
                \<lparr>job_pop_frequency := error_job_pop_frequency\<rparr>"
        by (simp add: api_job_pop_def req Let_def)
      with Raised show ?thesis
        by (simp add: emit_def error_job_pop_frequency_def api_job_pop_def)
    next
      case RequestErrorResponse
      with a b c run have
        "s' = (emit (Log ERROR ''Failed to pop job (API Error)'') ?s2)
                \<lparr>job_pop_frequency := error_job_pop_frequency\<rparr>"
        by (simp add: api_job_pop_def req Let_def)
      with RequestErrorResponse show ?thesis
        by (simp add: emit_def error_job_pop_frequency_def api_job_pop_def)
    next
      case (Response resp)
      let ?s3 = "?s2\<lparr>job_pop_frequency := default_job_pop_frequency\<rparr>"
      show ?thesis
      proof (cases "job_id resp")
        case None
        with Response a b c run have "s' = ?s3"
          by (simp add: api_job_pop_def req Let_def)
        with Response None show ?thesis
          by (auto simp: emit_def default_job_pop_frequency_def)
      next
        case (Some j)
        with Response a b c run have
          "s' = emit (WriteFile (''testing/'' @ j))
                  (?s3\<lparr>job_deque := job_deque ?s3 @ [resp],
                        testing_jobs_added := testing_jobs_added ?s3 + 1\<rparr>)"
          by (auto simp: api_job_pop_def req Let_def split: if_splits)
        with Response Some show ?thesis
          by (auto simp: emit_def default_job_pop_frequency_def)
      qed
    qed
  qed
  from skip attempt show ?thesis by blast
qed

theorem api_job_pop_interval_witness:
  "job_pop_frequency (snd (api_job_pop example_env_error example_running)) = 5
   \<and> api_job_pop (example_env\<lparr>time_pop_check := 104\<rparr>)
        (snd (api_job_pop example_env_error example_running))
       = (Inr (), snd (api_job_pop example_env_error example_running))
   \<and> job_pop_frequency (snd (api_job_pop example_env example_running)) = 1
   \<and> job_deque (snd (api_job_pop example_env example_running)) = [example_job]"
proof -
  have a: "int (length (job_deque example_running)) < queue_size (bridge_data example_running) + 1"
    by (simp add: example_running_def example_manager_def example_bridge_data_def)
  have b: "testing_jobs_added example_running < 10000"
    by (simp add: example_running_def example_manager_def)
  have c: "job_pop_frequency example_running
             \<le> time_pop_check example_env_error - last_job_pop_time example_running"
    "job_pop_frequency example_running
             \<le> time_pop_check example_env - last_job_pop_time example_running"
    by (simp_all add: example_running_def example_manager_def example_env_error_def example_env_def)
  have e: "pop_job example_env_error (job_pop_request example_running) = RequestErrorResponse"
    by (simp add: example_env_error_def)
  have l: "time_pop_check (example_env\<lparr>time_pop_check := 104\<rparr>) - time_pop_set example_env_error < 5"
    by (simp add: example_env_error_def example_env_def)
  have ok: "pop_job example_env (job_pop_request example_running) = Response example_job"
    "job_id example_job = Some ''job-1''"
    by (simp_all add: example_env_def example_job_def)
  have d: "job_deque example_running = []"
    by (simp add: example_running_def example_manager_def)
  from api_job_pop_interval
         [of example_env_error example_running
             "fst (api_job_pop example_env_error example_running)"
             "snd (api_job_pop example_env_error example_running)"
             "example_env\<lparr>time_pop_check := 104\<rparr>"]
       api_job_pop_interval
         [of example_env example_running
             "fst (api_job_pop example_env example_running)"
             "snd (api_job_pop example_env example_running)" _ example_job "''job-1''"]
  show ?thesis
    using a b c e l ok d by simp
qed

subsection \<open>The submit\<close>

lemma submit_try_completed_jobs:
  assumes "completed_jobs s = head # rest"
  shows "completed_jobs (submit_try env head images jid job_seed url is_censored s)
         = (if \<exists>first_image others webp seed_int reward.
                 images = first_image # others
                 \<and> base64_image_to_stream_buffer env first_image = Some webp
                 \<and> requests_put env url webp = Some 200
                 \<and> int_of_seed env job_seed = Some seed_int
                 \<and> submit_job env
                      \<lparr>sub_apikey = api_key (bridge_data s), sub_id = jid, sub_seed = seed_int,
                       sub_generation = ''R2'', sub_state = state head,
                       sub_censored = is_censored\<rparr> = Response reward
            then rest else head # rest)"
  using assms
  by (auto simp: submit_try_def log_unexpected_submit_error_def emit_def Let_def
      split: list.splits option.splits api_result.splits)

text \<open>
  Claim C3 (amended). With a record at the head of the completed queue,
  \<open>api_submit_job\<close> removes that record exactly when the record passes the checks
  (one image, a job id, a seed, an upload address, a \<open>censored\<close> value), the image is
  re-encoded, the HTTP PUT returns the status 200, the seed is a number and the
  submit request returns a response that is not an error. In every other case (a
  failed check, an exception, any other upload status, an error response) the
  completed queue is unchanged.
\<close>

theorem api_submit_job_removes_head:
  assumes "completed_jobs s = head # rest"
  shows
   "(completed_jobs (snd (api_submit_job env s)) = rest
     \<longleftrightarrow>
     (\<exists>first_image webp jid job_seed url is_censored seed_int reward.
         job_result_images_base64 head = Some [first_image]
         \<and> job_id (job_info head) = Some jid
         \<and> seed (payload (job_info head)) = Some job_seed
         \<and> r2_upload (job_info head) = Some url
         \<and> censored head = Some is_censored
         \<and> base64_image_to_stream_buffer env first_image = Some webp
         \<and> requests_put env url webp = Some 200
         \<and> int_of_seed env job_seed = Some seed_int
         \<and> submit_job env
              \<lparr>sub_apikey = api_key (bridge_data s), sub_id = jid, sub_seed = seed_int,
               sub_generation = ''R2'', sub_state = state head,
               sub_censored = is_censored\<rparr> = Response reward))
    \<and> (completed_jobs (snd (api_submit_job env s)) \<noteq> rest
       \<longrightarrow> completed_jobs (snd (api_submit_job env s)) = completed_jobs s)"
proof -
  have ne: "head # rest \<noteq> rest" by simp
  show ?thesis
  proof (cases "\<exists>images jid job_seed url is_censored.
                  job_result_images_base64 head = Some images \<and> length images \<le> 1
                  \<and> job_id (job_info head) = Some jid
                  \<and> seed (payload (job_info head)) = Some job_seed
                  \<and> r2_upload (job_info head) = Some url
                  \<and> censored head = Some is_censored")
    case True
    then obtain images jid job_seed url is_censored where
      f: "job_result_images_base64 head = Some images" "length images \<le> 1"
         "job_id (job_info head) = Some jid"
         "seed (payload (job_info head)) = Some job_seed"
         "r2_upload (job_info head) = Some url"
         "censored head = Some is_censored"
      by blast
    have run: "snd (api_submit_job env s) = submit_try env head images jid job_seed url is_censored s"
      using assms f by (simp add: api_submit_job_def)
    let ?req = "\<lambda>j n c. \<lparr>sub_apikey = api_key (bridge_data s), sub_id = j, sub_seed = n,
                           sub_generation = ''R2'', sub_state = state head, sub_censored = c\<rparr>"
    let ?P = "\<exists>first_image others webp seed_int reward.
                 images = first_image # others
                 \<and> base64_image_to_stream_buffer env first_image = Some webp
                 \<and> requests_put env url webp = Some 200
                 \<and> int_of_seed env job_seed = Some seed_int
                 \<and> submit_job env (?req jid seed_int is_censored) = Response reward"
    let ?Q = "\<exists>first_image webp jid job_seed url is_censored seed_int reward.
         job_result_images_base64 head = Some [first_image]
         \<and> job_id (job_info head) = Some jid
         \<and> seed (payload (job_info head)) = Some job_seed
         \<and> r2_upload (job_info head) = Some url
         \<and> censored head = Some is_censored
         \<and> base64_image_to_stream_buffer env first_image = Some webp
         \<and> requests_put env url webp = Some 200
         \<and> int_of_seed env job_seed = Some seed_int
         \<and> submit_job env (?req jid seed_int is_censored) = Response reward"
    have pq: "?Q" if "?P"
    proof -
      from that obtain first_image others webp seed_int reward where
        p: "images = first_image # others"
           "base64_image_to_stream_buffer env first_image = Some webp"
           "requests_put env url webp = Some 200"
           "int_of_seed env job_seed = Some seed_int"
           "submit_job env (?req jid seed_int is_censored) = Response reward"
        by blast
      from p(1) f(2) have "images = [first_image]" by simp
      with f p show ?thesis by blast
    qed
    have qp: "?P" if "?Q"
    proof -
      from that obtain first_image webp jid' job_seed' url' is_censored' seed_int reward where
        q: "job_result_images_base64 head = Some [first_image]"
           "job_id (job_info head) = Some jid'"
           "seed (payload (job_info head)) = Some job_seed'"
           "r2_upload (job_info head) = Some url'"
           "censored head = Some is_censored'"
           "base64_image_to_stream_buffer env first_image = Some webp"
           "requests_put env url' webp = Some 200"
           "int_of_seed env job_seed' = Some seed_int"
           "submit_job env (?req jid' seed_int is_censored') = Response reward"
        by blast
      from q f have "images = [first_image]" "jid' = jid" "job_seed' = job_seed" "url' = url"
        "is_censored' = is_censored"
        by simp_all
      with q show ?thesis by blast
    qed
    have "completed_jobs (snd (api_submit_job env s)) = (if ?P then rest else head # rest)"
      unfolding run by (rule submit_try_completed_jobs [OF assms])
    moreover have "?P = ?Q" using pq qp by blast
    ultimately have res: "completed_jobs (snd (api_submit_job env s)) = (if ?Q then rest else head # rest)"
      by (simp only:)
    show ?thesis
    proof (cases ?Q)
      case True
      with res have "completed_jobs (snd (api_submit_job env s)) = rest" by (simp only: if_True)
      with True show ?thesis by blast
    next
      case False
      with res have "completed_jobs (snd (api_submit_job env s)) = head # rest" by (simp only: if_False)
      with False ne assms show ?thesis by metis
    qed
  next
    case False
    have "snd (api_submit_job env s) = s"
    proof (cases "job_result_images_base64 head")
      case None
      with assms show ?thesis by (simp add: api_submit_job_def)
    next
      case (Some images)
      show ?thesis
      proof (cases "length images > 1")
        case True
        with Some assms show ?thesis by (simp add: api_submit_job_def)
      next
        case short: False
        with Some False have
          "job_id (job_info head) = None \<or> seed (payload (job_info head)) = None
           \<or> r2_upload (job_info head) = None \<or> censored head = None"
          by (cases "job_id (job_info head)"; cases "seed (payload (job_info head))";
              cases "r2_upload (job_info head)"; cases "censored head")
             (auto simp: not_less)
        with Some short assms show ?thesis
          by (auto simp: api_submit_job_def split: option.splits)
      qed
    qed
    then have same: "completed_jobs (snd (api_submit_job env s)) = head # rest"
      using assms by simp
    have "\<not> (\<exists>first_image webp jid job_seed url is_censored seed_int reward.
         job_result_images_base64 head = Some [first_image]
         \<and> job_id (job_info head) = Some jid
         \<and> seed (payload (job_info head)) = Some job_seed
         \<and> r2_upload (job_info head) = Some url
         \<and> censored head = Some is_censored
         \<and> base64_image_to_stream_buffer env first_image = Some webp
         \<and> requests_put env url webp = Some 200
         \<and> int_of_seed env job_seed = Some seed_int
         \<and> submit_job env
              \<lparr>sub_apikey = api_key (bridge_data s), sub_id = jid, sub_seed = seed_int,
               sub_generation = ''R2'', sub_state = state head,
               sub_censored = is_censored\<rparr> = Response reward)"
    proof
      assume "\<exists>first_image webp jid job_seed url is_censored seed_int reward.
         job_result_images_base64 head = Some [first_image]
         \<and> job_id (job_info head) = Some jid
         \<and> seed (payload (job_info head)) = Some job_seed
         \<and> r2_upload (job_info head) = Some url
         \<and> censored head = Some is_censored
         \<and> base64_image_to_stream_buffer env first_image = Some webp
         \<and> requests_put env url webp = Some 200
         \<and> int_of_seed env job_seed = Some seed_int
         \<and> submit_job env
              \<lparr>sub_apikey = api_key (bridge_data s), sub_id = jid, sub_seed = seed_int,
               sub_generation = ''R2'', sub_state = state head,
               sub_censored = is_censored\<rparr> = Response reward"
      then obtain first_image jid job_seed url is_censored where
        "job_result_images_base64 head = Some [first_image]"
        "job_id (job_info head) = Some jid"
        "seed (payload (job_info head)) = Some job_seed"
        "r2_upload (job_info head) = Some url"
        "censored head = Some is_censored"
        by blast
      moreover have "length [first_image] \<le> 1" by simp
      ultimately have "\<exists>images jid job_seed url is_censored.
                  job_result_images_base64 head = Some images \<and> length images \<le> 1
                  \<and> job_id (job_info head) = Some jid
                  \<and> seed (payload (job_info head)) = Some job_seed
                  \<and> r2_upload (job_info head) = Some url
                  \<and> censored head = Some is_censored"
        by blast
      with False show False ..
    qed
    with same ne assms show ?thesis by metis
  qed
qed

theorem api_submit_job_removes_head_witness:
  "completed_jobs example_completed = [example_done]
   \<and> completed_jobs (snd (api_submit_job example_env example_completed)) = []"
proof -
  have c: "completed_jobs example_completed = example_done # []"
    by (simp add: example_completed_def)
  have ok: "\<exists>first_image webp jid job_seed url is_censored seed_int reward.
         job_result_images_base64 example_done = Some [first_image]
         \<and> job_id (job_info example_done) = Some jid
         \<and> seed (payload (job_info example_done)) = Some job_seed
         \<and> r2_upload (job_info example_done) = Some url
         \<and> censored example_done = Some is_censored
         \<and> base64_image_to_stream_buffer example_env first_image = Some webp
         \<and> requests_put example_env url webp = Some 200
         \<and> int_of_seed example_env job_seed = Some seed_int
         \<and> submit_job example_env
              \<lparr>sub_apikey = api_key (bridge_data example_completed), sub_id = jid,
               sub_seed = seed_int, sub_generation = ''R2'', sub_state = state example_done,
               sub_censored = is_censored\<rparr> = Response reward"
    by (auto simp: example_done_def example_record_def example_job_def example_env_def)
  from api_submit_job_removes_head [OF c, of example_env] ok c
  show ?thesis by simp
qed

text \<open>
  The claim as first stated lets any 2xx status count as a successful upload. With the
  status 204 and an API that would accept the submit, the upload is logged as failed,
  no submit request is issued and the record stays at the head of the queue.
\<close>

theorem api_submit_job_upload_status_204:
  "completed_jobs example_completed = [example_done]
   \<and> requests_put example_env_204 ''https://r2/job-1'' ''webp:image'' = Some 204
   \<and> submit_job example_env_204
        \<lparr>sub_apikey = ''key'', sub_id = ''job-1'', sub_seed = 42, sub_generation = ''R2'',
         sub_state = GS_ok, sub_censored = False\<rparr> = Response 10
   \<and> api_submit_job example_env_204 example_completed =
       (Inr (), example_completed
          \<lparr>effects := [HttpPut ''https://r2/job-1'' ''webp:image'',
                       Log ERROR ''Failed to upload image to R2'']\<rparr>)
   \<and> completed_jobs (snd (api_submit_job example_env_204 example_completed)) = [example_done]"
  by (simp add: api_submit_job_def submit_try_def example_completed_def example_done_def
      example_record_def example_job_def example_env_204_def example_env_def
      example_running_def example_manager_def emit_def Let_def)

subsection \<open>The user info\<close>

lemma api_job_pop_effects:
  "\<exists>issued. effects (snd (api_job_pop env s)) = effects s @ issued \<and> (\<forall>k. FindUser k \<notin> set issued)"
  by (simp add: api_job_pop_def emit_def Let_def split: api_result.splits option.splits)

lemma submit_try_effects:
  "\<exists>issued. effects (submit_try env r images jid sd url c s) = effects s @ issued
            \<and> (\<forall>k. FindUser k \<notin> set issued)"
  by (simp add: submit_try_def log_unexpected_submit_error_def emit_def Let_def
      split: list.splits option.splits api_result.splits)

lemma api_submit_job_effects:
  "\<exists>issued. effects (snd (api_submit_job env s)) = effects s @ issued \<and> (\<forall>k. FindUser k \<notin> set issued)"
  by (simp add: api_submit_job_def submit_try_effects split: list.splits option.splits)

lemma api_job_pop_user_info:
  "user_info (snd (api_job_pop env s)) = user_info s
   \<and> user_info_failed (snd (api_job_pop env s)) = user_info_failed s
   \<and> user_info_failed_reason (snd (api_job_pop env s)) = user_info_failed_reason s
   \<and> last_get_user_info_time (snd (api_job_pop env s)) = last_get_user_info_time s"
  by (simp add: api_job_pop_def emit_def Let_def split: api_result.splits option.splits)

lemma submit_try_user_info:
  "user_info (submit_try env r images jid sd url c s) = user_info s
   \<and> user_info_failed (submit_try env r images jid sd url c s) = user_info_failed s
   \<and> user_info_failed_reason (submit_try env r images jid sd url c s) = user_info_failed_reason s
   \<and> last_get_user_info_time (submit_try env r images jid sd url c s) = last_get_user_info_time s"
  by (simp add: submit_try_def log_unexpected_submit_error_def emit_def Let_def
      split: list.splits option.splits api_result.splits)

lemma api_submit_job_user_info:
  "user_info (snd (api_submit_job env s)) = user_info s
   \<and> user_info_failed (snd (api_submit_job env s)) = user_info_failed s
   \<and> user_info_failed_reason (snd (api_submit_job env s)) = user_info_failed_reason s
   \<and> last_get_user_info_time (snd (api_submit_job env s)) = last_get_user_info_time s"
  by (simp add: api_submit_job_def submit_try_user_info split: list.splits option.splits)

text \<open>
  No iteration of the API loop looks the user up: it issues no \<open>FindUser\<close> request
  and leaves \<open>user_info\<close>, \<open>user_info_failed\<close> and its reason as they are; when more
  than 5 seconds have passed since \<open>last_get_user_info_time\<close> it only stores the
  current time there. An iteration that starts with \<open>user_info_failed\<close> set sleeps 5
  seconds first. The method \<open>api_get_user_info\<close>, which no loop calls, sets
  \<open>user_info_failed\<close> on an error response and on an exception raised by the call,
  and stores a reason for the exception.
\<close>

lemma api_call_loop_iteration_user_info:
  "(\<exists>issued. effects (api_call_loop_iteration env s) = effects s @ issued
       \<and> (\<forall>k. FindUser k \<notin> set issued)
       \<and> (user_info_failed s \<longrightarrow> take 1 issued = [Sleep 5]))
   \<and> user_info (api_call_loop_iteration env s) = user_info s
   \<and> user_info_failed (api_call_loop_iteration env s) = user_info_failed s
   \<and> user_info_failed_reason (api_call_loop_iteration env s) = user_info_failed_reason s
   \<and> last_get_user_info_time (api_call_loop_iteration env s) =
       (if last_get_user_info_time s + 5 < time_user_info_check env
        then time_user_info_set env else last_get_user_info_time s)
   \<and> (find_user env (api_key (bridge_data s)) = FindUserErrorResponse
       \<longrightarrow> user_info_failed (snd (api_get_user_info env s)))
   \<and> (find_user env (api_key (bridge_data s)) = FindUserClientError type_name text
       \<longrightarrow> user_info_failed (snd (api_get_user_info env s))
           \<and> user_info_failed_reason (snd (api_get_user_info env s))
               = Some (''HTTP error (('' @ type_name @ '') '' @ text @ '')''))
   \<and> (find_user env (api_key (bridge_data s)) = FindUserException type_name text
       \<longrightarrow> user_info_failed (snd (api_get_user_info env s))
           \<and> user_info_failed_reason (snd (api_get_user_info env s))
               = Some (''Unexpected error (('' @ type_name @ '') '' @ text @ '')''))"
proof -
  let ?s1 = "if user_info_failed s then emit (Sleep 5) s else s"
  let ?s2 = "if last_get_user_info_time ?s1 + api_get_user_info_interval < time_user_info_check env
             then ?s1\<lparr>last_get_user_info_time := time_user_info_set env\<rparr> else ?s1"
  let ?s3 = "snd (api_job_pop env ?s2)"
  let ?s4 = "snd (api_submit_job env ?s3)"
  let ?s5 = "if user_info_failed ?s4
             then emit (Log ERROR ''The server failed to respond. Is the horde or your internet down?'') ?s4
             else ?s4"
  have eq: "api_call_loop_iteration env s = emit (Sleep api_call_loop_interval) ?s5"
    by (simp add: api_call_loop_iteration_def Let_def)
  obtain i3 where i3: "effects ?s3 = effects ?s2 @ i3" "\<forall>k. FindUser k \<notin> set i3"
    using api_job_pop_effects [of env ?s2] by blast
  obtain i4 where i4: "effects ?s4 = effects ?s3 @ i4" "\<forall>k. FindUser k \<notin> set i4"
    using api_submit_job_effects [of env ?s3] by blast
  have e2: "effects ?s2 = effects s @ (if user_info_failed s then [Sleep 5] else [])"
    by (simp add: emit_def)
  let ?tail = "(if user_info_failed ?s4
                then [Log ERROR ''The server failed to respond. Is the horde or your internet down?'']
                else []) @ [Sleep api_call_loop_interval]"
  let ?issued = "(if user_info_failed s then [Sleep 5] else []) @ i3 @ i4 @ ?tail"
  have e5: "effects (emit (Sleep api_call_loop_interval) ?s5) = effects ?s4 @ ?tail"
    by (simp add: emit_def)
  have "effects (api_call_loop_iteration env s) = effects s @ ?issued"
    unfolding eq e5 i4(1) i3(1) e2 by simp
  moreover have "\<forall>k. FindUser k \<notin> set ?issued"
    using i3(2) i4(2) by simp
  moreover have "user_info_failed s \<longrightarrow> take 1 ?issued = [Sleep 5]"
    by simp
  ultimately have effects_part:
    "\<exists>issued. effects (api_call_loop_iteration env s) = effects s @ issued
       \<and> (\<forall>k. FindUser k \<notin> set issued)
       \<and> (user_info_failed s \<longrightarrow> take 1 issued = [Sleep 5])"
    by blast
  have u2: "user_info ?s2 = user_info s" "user_info_failed ?s2 = user_info_failed s"
    "user_info_failed_reason ?s2 = user_info_failed_reason s"
    "last_get_user_info_time ?s2 =
       (if last_get_user_info_time s + 5 < time_user_info_check env
        then time_user_info_set env else last_get_user_info_time s)"
    by (simp_all add: emit_def api_get_user_info_interval_def)
  have u4: "user_info ?s4 = user_info ?s2" "user_info_failed ?s4 = user_info_failed ?s2"
    "user_info_failed_reason ?s4 = user_info_failed_reason ?s2"
    "last_get_user_info_time ?s4 = last_get_user_info_time ?s2"
    using api_job_pop_user_info [of env ?s2] api_submit_job_user_info [of env ?s3]
    by simp_all
  have u5: "user_info (emit (Sleep api_call_loop_interval) ?s5) = user_info ?s4"
    "user_info_failed (emit (Sleep api_call_loop_interval) ?s5) = user_info_failed ?s4"
    "user_info_failed_reason (emit (Sleep api_call_loop_interval) ?s5) = user_info_failed_reason ?s4"
    "last_get_user_info_time (emit (Sleep api_call_loop_interval) ?s5) = last_get_user_info_time ?s4"
    by (simp_all add: emit_def)
  have f1: "user_info (api_call_loop_iteration env s) = user_info s"
  proof -
    have "user_info (api_call_loop_iteration env s) = user_info (emit (Sleep api_call_loop_interval) ?s5)"
      by (simp only: eq)
    also have "\<dots> = user_info ?s4" by (rule u5(1))
    also have "\<dots> = user_info ?s2" by (rule u4(1))
    also have "\<dots> = user_info s" by (rule u2(1))
    finally show ?thesis .
  qed
  have f2: "user_info_failed (api_call_loop_iteration env s) = user_info_failed s"
  proof -
    have "user_info_failed (api_call_loop_iteration env s)
            = user_info_failed (emit (Sleep api_call_loop_interval) ?s5)"
      by (simp only: eq)
    also have "\<dots> = user_info_failed ?s4" by (rule u5(2))
    also have "\<dots> = user_info_failed ?s2" by (rule u4(2))
    also have "\<dots> = user_info_failed s" by (rule u2(2))
    finally show ?thesis .
  qed
  have f3: "user_info_failed_reason (api_call_loop_iteration env s) = user_info_failed_reason s"
  proof -
    have "user_info_failed_reason (api_call_loop_iteration env s)
            = user_info_failed_reason (emit (Sleep api_call_loop_interval) ?s5)"
      by (simp only: eq)
    also have "\<dots> = user_info_failed_reason ?s4" by (rule u5(3))
    also have "\<dots> = user_info_failed_reason ?s2" by (rule u4(3))
    also have "\<dots> = user_info_failed_reason s" by (rule u2(3))
    finally show ?thesis .
  qed
  have f4: "last_get_user_info_time (api_call_loop_iteration env s) =
       (if last_get_user_info_time s + 5 < time_user_info_check env
        then time_user_info_set env else last_get_user_info_time s)"
  proof -
    have "last_get_user_info_time (api_call_loop_iteration env s)
            = last_get_user_info_time (emit (Sleep api_call_loop_interval) ?s5)"
      by (simp only: eq)
    also have "\<dots> = last_get_user_info_time ?s4" by (rule u5(4))
    also have "\<dots> = last_get_user_info_time ?s2" by (rule u4(4))
    also have "\<dots> = (if last_get_user_info_time s + 5 < time_user_info_check env
        then time_user_info_set env else last_get_user_info_time s)" by (rule u2(4))
    finally show ?thesis .
  qed
  have lookup:
    "find_user env (api_key (bridge_data s)) = FindUserErrorResponse
       \<longrightarrow> user_info_failed (snd (api_get_user_info env s))"
    "find_user env (api_key (bridge_data s)) = FindUserClientError type_name text
       \<longrightarrow> user_info_failed (snd (api_get_user_info env s))
           \<and> user_info_failed_reason (snd (api_get_user_info env s))
               = Some (''HTTP error (('' @ type_name @ '') '' @ text @ '')'')"
    "find_user env (api_key (bridge_data s)) = FindUserException type_name text
       \<longrightarrow> user_info_failed (snd (api_get_user_info env s))
           \<and> user_info_failed_reason (snd (api_get_user_info env s))
               = Some (''Unexpected error (('' @ type_name @ '') '' @ text @ '')'')"
    by (simp_all add: api_get_user_info_def emit_def Let_def)
  from effects_part f1 f2 f3 f4 lookup show ?thesis
    by (intro conjI)
qed

text \<open>
  Claim C8. The claim has the API loop fetch the account record on every iteration in
  which the interval has passed. The code does not: in the iteration below 100 seconds
  have passed since the last recorded time; the loop issues a job pop, writes the file
  of the popped job and sleeps. It issues no \<open>FindUser\<close> request, \<open>user_info\<close> is still
  absent, and the time is recorded as if the user info had been fetched.
\<close>

theorem api_loop_interval_elapsed_no_fetch:
  "last_get_user_info_time example_running + api_get_user_info_interval
     < time_user_info_check example_env
   \<and> effects (api_call_loop_iteration example_env example_running) =
       [JobPop (job_pop_request example_running), WriteFile ''testing/job-1'', Sleep (1 / 10)]
   \<and> user_info (api_call_loop_iteration example_env example_running) = None
   \<and> last_get_user_info_time (api_call_loop_iteration example_env example_running)
       = time_user_info_set example_env"
  by (simp add: api_call_loop_iteration_def api_job_pop_def api_submit_job_def job_pop_request_def
      example_running_def example_manager_def example_bridge_data_def example_env_def example_job_def
      api_get_user_info_interval_def api_call_loop_interval_def testing_max_jobs_def
      default_job_pop_frequency_def emit_def Let_def)

subsection \<open>The dispatcher: a message that raises\<close>

text \<open>
  Handling a message neither reads nor writes the queue, so the messages ahead of a
  message can be handled whatever is behind them.
\<close>

lemma with_process_map_queue:
  "with_process_map r (s\<lparr>process_message_queue := q\<rparr>) =
     (fst (with_process_map r s), (snd (with_process_map r s))\<lparr>process_message_queue := q\<rparr>)"
  by (simp add: with_process_map_def split: sum.splits)

lemma handle_model_state_change_queue:
  "handle_model_state_change pid name st (s\<lparr>process_message_queue := q\<rparr>) =
     (fst (handle_model_state_change pid name st s),
      (snd (handle_model_state_change pid name st s))\<lparr>process_message_queue := q\<rparr>)"
  by (simp add: handle_model_state_change_def with_process_map_def Let_def split: sum.splits)

lemma handle_inference_result_queue:
  "handle_inference_result ji imgs st (s\<lparr>process_message_queue := q\<rparr>) =
     (fst (handle_inference_result ji imgs st s),
      (snd (handle_inference_result ji imgs st s))\<lparr>process_message_queue := q\<rparr>)"
  by (simp add: handle_inference_result_def emit_def Let_def split: option.splits list.splits)

lemma handle_safety_result_queue:
  "handle_safety_result jid evs (s\<lparr>process_message_queue := q\<rparr>) =
     (fst (handle_safety_result jid evs s),
      (snd (handle_safety_result jid evs s))\<lparr>process_message_queue := q\<rparr>)"
  by (simp add: handle_safety_result_def Let_def split: prod.splits option.splits sum.splits)

lemma handle_message_queue:
  "handle_message m (s\<lparr>process_message_queue := q\<rparr>) =
     (fst (handle_message m s), (snd (handle_message m s))\<lparr>process_message_queue := q\<rparr>)"
  by (simp add: handle_message_def with_process_map_queue handle_model_state_change_queue
      handle_inference_result_queue handle_safety_result_queue split: HordeProcessMessage.splits)

lemma handle_message_keeps_queue:
  "process_message_queue (snd (handle_message m (s\<lparr>process_message_queue := q\<rparr>))) = q"
  by (simp add: handle_message_queue)

lemma drain_messages_queue:
  "ms \<noteq> [] \<Longrightarrow> drain_messages ms (s\<lparr>process_message_queue := q\<rparr>) = drain_messages ms s"
  by (cases ms) simp_all

lemma drain_messages_append:
  assumes "drain_messages before s = (Inr (), s1)" and "behind \<noteq> []"
  shows "drain_messages (before @ behind) s = drain_messages behind s1"
  using assms
proof (induction before arbitrary: s)
  case Nil
  then show ?case by simp
next
  case (Cons m before)
  obtain r s' where h: "handle_message m (s\<lparr>process_message_queue := before\<rparr>) = (r, s')"
    by force
  with Cons.prems(1) have r: "r = Inr ()" and d: "drain_messages before s' = (Inr (), s1)"
    by (auto split: sum.splits)
  have s': "s' = (snd (handle_message m s))\<lparr>process_message_queue := before\<rparr>"
    and r': "r = fst (handle_message m s)"
    using h handle_message_queue [where m = m and s = s and q = before] by auto
  have "handle_message m (s\<lparr>process_message_queue := before @ behind\<rparr>)
          = (r, s'\<lparr>process_message_queue := before @ behind\<rparr>)"
    unfolding s' r' by (simp add: handle_message_queue [where q = "before @ behind"])
  moreover have "drain_messages (before @ behind) (s'\<lparr>process_message_queue := before @ behind\<rparr>)
                   = drain_messages behind s1"
    using Cons.IH [OF d Cons.prems(2)] Cons.prems(2) by (simp add: drain_messages_queue)
  ultimately show ?case using r by simp
qed

text \<open>
  Claim C7 (amended). When the messages at the front of the queue are handled without
  an exception and the next message raises, the dispatcher raises that exception:
  what the earlier messages and the failing message wrote stays written, and the
  messages behind the failing one are left in the queue, not handled in that call.
  The iteration of the process control loop that called the dispatcher raises the
  same exception, since neither has a handler.
\<close>

theorem dispatcher_stops_at_raising_message:
  assumes queue: "process_message_queue s = before @ message # behind"
    and handled: "drain_messages before s = (Inr (), s1)"
    and raises: "handle_message message (s1\<lparr>process_message_queue := behind\<rparr>) = (Inl e, s2)"
  shows "receive_and_handle_process_messages s = (Inl e, s2)
     \<and> process_message_queue s2 = behind
     \<and> (stable_diffusion_reference s \<noteq> None \<longrightarrow> process_control_loop_iteration s = (Inl e, s2))"
proof -
  have "drain_messages (before @ message # behind) s = drain_messages (message # behind) s1"
    by (rule drain_messages_append [OF handled]) simp
  with raises queue have run: "receive_and_handle_process_messages s = (Inl e, s2)"
    by (simp add: receive_and_handle_process_messages_def)
  have "process_message_queue s2 = behind"
    using handle_message_keeps_queue [where m = message and s = s1 and q = behind] raises by simp
  with run show ?thesis
    by (auto simp: process_control_loop_iteration_def)
qed

theorem dispatcher_stops_at_raising_message_witness:
  "receive_and_handle_process_messages
     (example_running
        \<lparr>process_message_queue :=
           [HordeProcessStateChangeMessage 1 PRELOADING,
            HordeSafetyResultMessage 0 ''job-9'' [],
            HordeProcessStateChangeMessage 1 PRELOADED]\<rparr>)
   = (Inl ValueError,
      example_running
        \<lparr>process_map :=
           [(0, (new_process 0 SAFETY)\<lparr>last_process_state := WAITING_FOR_JOB\<rparr>),
            (1, (new_process 1 INFERENCE)\<lparr>last_process_state := PRELOADING\<rparr>)],
         process_message_queue := [HordeProcessStateChangeMessage 1 PRELOADED]\<rparr>)"
proof -
  let ?m1 = "HordeProcessStateChangeMessage 1 PRELOADING"
  let ?m2 = "HordeSafetyResultMessage 0 ''job-9'' []"
  let ?m3 = "HordeProcessStateChangeMessage 1 PRELOADED"
  let ?s = "example_running\<lparr>process_message_queue := [?m1, ?m2, ?m3]\<rparr>"
  let ?pm = "[(0, (new_process 0 SAFETY)\<lparr>last_process_state := WAITING_FOR_JOB\<rparr>),
              (1, (new_process 1 INFERENCE)\<lparr>last_process_state := PRELOADING\<rparr>)]"
  let ?s1 = "example_running\<lparr>process_map := ?pm, process_message_queue := []\<rparr>"
  let ?s2 = "example_running\<lparr>process_map := ?pm, process_message_queue := [?m3]\<rparr>"
  have queue: "process_message_queue ?s = [?m1] @ ?m2 # [?m3]" by simp
  have handled: "drain_messages [?m1] ?s = (Inr (), ?s1)"
    by (simp add: handle_message_def with_process_map_def ProcessMap_update_entry_def
        pm_contains_def pm_modify_def set_opt_def example_running_def new_process_def)
  have raises: "handle_message ?m2 (?s1\<lparr>process_message_queue := [?m3]\<rparr>) = (Inl ValueError, ?s2)"
    by (simp add: handle_message_def handle_safety_result_def pm_contains_def
        example_running_def example_manager_def)
  from dispatcher_stops_at_raising_message [OF queue handled raises]
  show ?thesis by simp
qed

text \<open>
  The claim as first stated has the messages behind a failing one still handled. Below,
  a safety result for a job that is not being checked raises; the state change of
  process 1 behind it, which alone would set the state of process 1 to \<open>PRELOADED\<close>,
  is left in the queue and the state of process 1 is unchanged.
\<close>

theorem dispatcher_drops_sibling_message:
  "receive_and_handle_process_messages
     (example_running
        \<lparr>process_message_queue :=
           [HordeSafetyResultMessage 0 ''job-9'' [],
            HordeProcessStateChangeMessage 1 PRELOADED]\<rparr>)
   = (Inl ValueError,
      example_running\<lparr>process_message_queue := [HordeProcessStateChangeMessage 1 PRELOADED]\<rparr>)
   \<and> handle_message (HordeProcessStateChangeMessage 1 PRELOADED) example_running
   = (Inr (),
      example_running
        \<lparr>process_map :=
           [(0, (new_process 0 SAFETY)\<lparr>last_process_state := WAITING_FOR_JOB\<rparr>),
            (1, (new_process 1 INFERENCE)\<lparr>last_process_state := PRELOADED\<rparr>)]\<rparr>)"
  by (simp add: receive_and_handle_process_messages_def handle_message_def
      handle_safety_result_def with_process_map_def ProcessMap_update_entry_def
      pm_contains_def pm_modify_def set_opt_def example_running_def example_manager_def
      new_process_def)

subsection \<open>Who writes resident models and load states\<close>
























end
